theory Spec2Isabelle
  imports Complex_Main "HOL-Library.Word" "HOL-Library.Log_Nat"
begin

section \<open>Pixel buffers and the mask recolouring of \<open>createColoredMask\<close>\<close>

text \<open>
  The browser application keeps all of its state in the closure of the
  \<open>DOMContentLoaded\<close> handler. This theory embeds that state and the event
  handlers that mutate it. A JavaScript number is the rational value of an
  IEEE 754 double, and every arithmetic operation rounds its exact result to
  the nearest double. Strings are byte sequences in UTF-8.

  A \<open>Uint8ClampedArray\<close> (the \<open>data\<close> of an \<open>ImageData\<close>) is a list of bytes,
  four per pixel in the order red, green, blue, alpha.
\<close>

type_synonym byte = "8 word"

text \<open>
  The white space and line terminator code points of ECMAScript, each as its
  UTF-8 bytes: U+0009 to U+000D, U+0020, U+00A0, U+1680, U+2000 to U+200A,
  U+2028, U+2029, U+202F, U+205F, U+3000 and U+FEFF.
\<close>

definition whiteSpaceTokens :: "string list" where
  "whiteSpaceTokens =
     [[CHR 0x09], [CHR 0x0A], [CHR 0x0B], [CHR 0x0C], [CHR 0x0D], [CHR 0x20],
      [CHR 0xC2, CHR 0xA0], [CHR 0xE1, CHR 0x9A, CHR 0x80],
      [CHR 0xE2, CHR 0x80, CHR 0x80], [CHR 0xE2, CHR 0x80, CHR 0x81],
      [CHR 0xE2, CHR 0x80, CHR 0x82], [CHR 0xE2, CHR 0x80, CHR 0x83],
      [CHR 0xE2, CHR 0x80, CHR 0x84], [CHR 0xE2, CHR 0x80, CHR 0x85],
      [CHR 0xE2, CHR 0x80, CHR 0x86], [CHR 0xE2, CHR 0x80, CHR 0x87],
      [CHR 0xE2, CHR 0x80, CHR 0x88], [CHR 0xE2, CHR 0x80, CHR 0x89],
      [CHR 0xE2, CHR 0x80, CHR 0x8A], [CHR 0xE2, CHR 0x80, CHR 0xA8],
      [CHR 0xE2, CHR 0x80, CHR 0xA9], [CHR 0xE2, CHR 0x80, CHR 0xAF],
      [CHR 0xE2, CHR 0x81, CHR 0x9F], [CHR 0xE3, CHR 0x80, CHR 0x80],
      [CHR 0xEF, CHR 0xBB, CHR 0xBF]]"

text \<open>
  The number of bytes of the white space token that \<open>str\<close> starts with, 0 when
  it starts with none; and \<open>str\<close> without its leading white space.
\<close>

definition leadingWhiteSpace :: "string list \<Rightarrow> string \<Rightarrow> nat" where
  "leadingWhiteSpace tokens str =
     (case find (\<lambda>w. take (length w) str = w) tokens of
        None \<Rightarrow> 0
      | Some w \<Rightarrow> length w)"

function stripLeading :: "string list \<Rightarrow> string \<Rightarrow> string" where
  "stripLeading tokens str =
     (if leadingWhiteSpace tokens str = 0 \<or> str = [] then str
      else stripLeading tokens (drop (leadingWhiteSpace tokens str) str))"
  by pat_completeness auto
termination
  by (relation "measure (\<lambda>(tokens, str). length str)") auto

declare stripLeading.simps [simp del]

text \<open>
  \<open>parseInt(str, 16)\<close>: leading white space is skipped, one sign is read, an
  \<open>0x\<close> prefix is dropped, then the longest run of hexadecimal digits is the
  value; with no digit the result is \<open>NaN\<close>, here \<open>None\<close>.
\<close>

definition hexDigit :: "char \<Rightarrow> nat option" where
  "hexDigit c = (let n = (of_char c :: nat) in
     if 48 \<le> n \<and> n \<le> 57 then Some (n - 48)
     else if 97 \<le> n \<and> n \<le> 102 then Some (n - 87)
     else if 65 \<le> n \<and> n \<le> 70 then Some (n - 55)
     else None)"

definition parseInt16 :: "string \<Rightarrow> int option" where
  "parseInt16 str =
     (let s = stripLeading whiteSpaceTokens str;
          neg = (s \<noteq> [] \<and> hd s = CHR ''-'');
          s1 = (if s \<noteq> [] \<and> (hd s = CHR ''+'' \<or> hd s = CHR ''-'') then tl s else s);
          s2 = (if take 2 s1 = ''0x'' \<or> take 2 s1 = ''0X'' then drop 2 s1 else s1);
          z = takeWhile (\<lambda>c. hexDigit c \<noteq> None) s2
      in if z = [] then None
         else Some ((if neg then - 1 else 1) * int (foldl (\<lambda>a c. 16 * a + the (hexDigit c)) 0 z)))"

text \<open>
  Storing a number into a \<open>Uint8ClampedArray\<close> clamps it to \<open>0..255\<close>; \<open>NaN\<close>
  is stored as \<open>0\<close>.
\<close>

definition toUint8Clamp :: "int option \<Rightarrow> byte" where
  "toUint8Clamp v = (case v of None \<Rightarrow> 0 | Some n \<Rightarrow> word_of_int (max 0 (min 255 n)))"

text \<open>\<open>String.prototype.slice(a, b)\<close> for \<open>0 \<le> a \<le> b\<close>.\<close>

definition slice :: "nat \<Rightarrow> nat \<Rightarrow> string \<Rightarrow> string" where
  "slice a b s = take (b - a) (drop a s)"

text \<open>
  The three channel values \<open>r\<close>, \<open>g\<close>, \<open>b\<close> of \<open>createColoredMask\<close>, as the bytes
  that the assignments \<open>data[i] = r\<close> etc. store.
\<close>

definition hexChannels :: "string \<Rightarrow> byte \<times> byte \<times> byte" where
  "hexChannels hexColor =
     (toUint8Clamp (parseInt16 (slice 1 3 hexColor)),
      toUint8Clamp (parseInt16 (slice 3 5 hexColor)),
      toUint8Clamp (parseInt16 (slice 5 7 hexColor)))"

text \<open>
  The loop \<open>for (let i = 0; i < data.length; i += 4)\<close> of \<open>createColoredMask\<close>.
  Reading \<open>data[i + 3]\<close> beyond the array gives \<open>undefined\<close>, and
  \<open>undefined > 0\<close> is false, so such a tail is left alone.
\<close>

function recolorLoop :: "byte \<Rightarrow> byte \<Rightarrow> byte \<Rightarrow> nat \<Rightarrow> byte list \<Rightarrow> byte list" where
  "recolorLoop r g b i data =
     (if i < length data
      then recolorLoop r g b (i + 4)
             (if i + 3 < length data \<and> 0 < data ! (i + 3)
              then data[i := r, i + 1 := g, i + 2 := b, i + 3 := 128]
              else data)
      else data)"
  by pat_completeness auto
termination
  by (relation "measure (\<lambda>(r, g, b, i, data). length data - i)") auto

declare recolorLoop.simps [simp del]

text \<open>
  Lines 268 to 276 of \<open>createColoredMask\<close>: the colour is parsed and the loop
  runs over \<open>data\<close>, the buffer that \<open>getImageData\<close> returned. The result is
  the buffer handed to \<open>putImageData\<close>.
\<close>

definition recolored :: "byte list \<Rightarrow> string \<Rightarrow> byte list" where
  "recolored data hexColor =
     (case hexChannels hexColor of (r, g, b) \<Rightarrow> recolorLoop r g b 0 data)"

text \<open>
  The bitmap of a 2D canvas holds premultiplied 8-bit pixels. Writing a pixel
  (\<open>drawImage\<close>, \<open>putImageData\<close>) keeps, for each colour channel \<open>c\<close> and alpha
  \<open>a\<close>, the value \<open>c * a / 255\<close> rounded to the nearest integer; reading it back
  (\<open>getImageData\<close>, \<open>toDataURL\<close>) divides by the alpha again and rounds, and
  gives a pixel of alpha 0 as four zeros. The alpha itself is kept as it is.
\<close>

definition premultiply :: "byte \<Rightarrow> byte \<Rightarrow> byte" where
  "premultiply a c = of_nat ((2 * unat c * unat a + 255) div 510)"

definition unpremultiply :: "byte \<Rightarrow> byte \<Rightarrow> byte" where
  "unpremultiply a c =
     (if a = 0 then 0 else of_nat (min 255 ((2 * unat c * 255 + unat a) div (2 * unat a))))"

fun throughCanvas :: "byte list \<Rightarrow> byte list" where
  "throughCanvas (r # g # b # a # rest) =
     (if a = 0 then [0, 0, 0, 0]
      else [unpremultiply a (premultiply a r), unpremultiply a (premultiply a g),
            unpremultiply a (premultiply a b), a]) @ throughCanvas rest"
| "throughCanvas rest = rest"

text \<open>
  An image is its size and its RGBA pixel data, \<open>4 * width * height\<close> bytes. An
  encoded image (a data URL, the \<open>src\<close> of an \<open>Image\<close>) is represented by the
  image it decodes to; PNG encoding and decoding lose nothing.
\<close>

record imageData =
  im_width :: nat
  im_height :: nat
  im_data :: "byte list"

text \<open>
  \<open>createColoredMask\<close>: the mask is drawn on a canvas of its own size and read
  back, recoloured, written to the canvas again and read back as the image
  that the promise resolves to.
\<close>

definition createColoredMask :: "imageData \<Rightarrow> string \<Rightarrow> imageData" where
  "createColoredMask maskImage hexColor =
     maskImage\<lparr>im_data :=
       throughCanvas (recolored (throughCanvas (im_data maskImage)) hexColor)\<rparr>"

text \<open>One pixel of a buffer: the four bytes at \<open>4k .. 4k+3\<close>.\<close>

definition pixel :: "byte list \<Rightarrow> nat \<Rightarrow> byte \<times> byte \<times> byte \<times> byte" where
  "pixel data k = (data ! (4 * k), data ! (4 * k + 1), data ! (4 * k + 2), data ! (4 * k + 3))"

definition alpha :: "byte list \<Rightarrow> nat \<Rightarrow> byte" where
  "alpha data k = data ! (4 * k + 3)"


section \<open>The annotation session state\<close>

text \<open>
  A point carries the rounded image coordinates and the label (\<open>1\<close> for the
  primary button, \<open>0\<close> otherwise). A coordinate is an integer, or \<open>NonFinite\<close>
  where JavaScript computes \<open>NaN\<close> or an infinity.
\<close>

datatype coord = Px int | NonFinite

record point =
  pt_x :: coord
  pt_y :: coord
  pt_label :: nat

text \<open>The decoded base image; only its size is read by the handlers.\<close>

record htmlImage =
  img_width :: nat
  img_height :: nat

record savedMask =
  maskImageObject :: imageData
  maskImageSrc :: imageData
  className :: string
  classColor :: string

text \<open>One element of \<open>imagesState\<close>.\<close>

record imageState =
  imageElement :: htmlImage
  imageDataUrl :: string
  points :: "point list"
  currentMask :: "imageData option"
  savedMasks :: "savedMask list"
  highlightedMaskIndex :: "nat option"

record classInfo =
  name :: string
  color :: string

text \<open>
  Work that has been started and not yet finished. A \<open>fetchTask\<close> is a call of
  \<open>generateMask\<close> suspended at \<open>await fetch('/predict', ...)\<close>: it holds the
  object \<open>state\<close> it captured (as the index of that object in \<open>imagesState\<close>;
  the array only grows and its elements are never replaced) and the request
  body serialised at the call. A \<open>maskTask\<close> is a call of \<open>createColoredMask\<close>
  whose promise has not resolved yet, with the \<open>state\<close> its \<open>then\<close> callback
  will write to.
\<close>

record fetchTask =
  ft_state :: nat
  ft_image_data :: string
  ft_points :: "point list"

record maskTask =
  mt_state :: nat
  mt_mask :: imageData
  mt_color :: string

text \<open>
  The variables of the closure, the part of the document that decides which
  events can occur (the canvas size, the rendered list items, the disabled
  flags of two buttons), and the suspended work.
\<close>

record app =
  imagesState :: "imageState list"
  activeImageId :: "nat option"
  classes :: "classInfo list"
  activeClass :: "string option"
  isPredicting :: bool
  canvasWidth :: nat
  canvasHeight :: nat
  thumbnails :: nat
  classListItems :: "string list"
  masksListItems :: nat
  clearPointsDisabled :: bool
  saveMaskDisabled :: bool
  pendingFetches :: "fetchTask list"
  pendingMasks :: "maskTask list"

text \<open>
  \<open>getActiveImageState\<close>: \<open>imagesState[activeImageId]\<close>, or \<open>null\<close>. An id beyond
  the array would give \<open>undefined\<close>, which the \<open>!state\<close> tests of the handlers
  treat as \<open>null\<close> and which is treated as \<open>null\<close> throughout here; no reachable
  state has such an id (\<open>inv_active\<close> below). \<open>activeIndex\<close> is the index of the
  object returned.
\<close>

definition activeIndex :: "app \<Rightarrow> nat option" where
  "activeIndex s =
     (case activeImageId s of
        None \<Rightarrow> None
      | Some i \<Rightarrow> if i < length (imagesState s) then Some i else None)"

definition getActiveImageState :: "app \<Rightarrow> imageState option" where
  "getActiveImageState s = map_option (\<lambda>i. imagesState s ! i) (activeIndex s)"

text \<open>Mutation of the object held in \<open>state\<close>: an update at its index.\<close>

definition updState :: "nat \<Rightarrow> (imageState \<Rightarrow> imageState) \<Rightarrow> app \<Rightarrow> app" where
  "updState i f s = s\<lparr>imagesState := (imagesState s)[i := f (imagesState s ! i)]\<rparr>"

definition findClassByName :: "app \<Rightarrow> string \<Rightarrow> classInfo option" where
  "findClassByName s n = find (\<lambda>c. name c = n) (classes s)"

text \<open>Truthiness of \<open>activeClass\<close>: \<open>null\<close> and the empty string are falsy.\<close>

definition isSet :: "string option \<Rightarrow> bool" where
  "isSet a = (case a of None \<Rightarrow> False | Some n \<Rightarrow> n \<noteq> [])"

subsection \<open>Rendering\<close>

definition renderThumbnails :: "app \<Rightarrow> app" where
  "renderThumbnails s = s\<lparr>thumbnails := length (imagesState s)\<rparr>"

definition renderClassesUI :: "app \<Rightarrow> app" where
  "renderClassesUI s = s\<lparr>classListItems := map name (classes s)\<rparr>"

definition renderMasksListUI :: "app \<Rightarrow> app" where
  "renderMasksListUI s =
     s\<lparr>masksListItems :=
         (case getActiveImageState s of None \<Rightarrow> 0 | Some state \<Rightarrow> length (savedMasks state))\<rparr>"

definition updateButtonsState :: "app \<Rightarrow> app" where
  "updateButtonsState s =
     (let hasCurrentWork =
            (case getActiveImageState s of
               None \<Rightarrow> False
             | Some state \<Rightarrow> points state \<noteq> [] \<or> currentMask state \<noteq> None);
          canSave =
            (case getActiveImageState s of
               None \<Rightarrow> False
             | Some state \<Rightarrow> currentMask state \<noteq> None \<and> isSet (activeClass s))
      in s\<lparr>clearPointsDisabled := \<not> hasCurrentWork, saveMaskDisabled := \<not> canSave\<rparr>)"

text \<open>
  \<open>updateAllUI\<close>; \<open>redrawCanvas\<close> only paints and has no effect on the state
  modelled here.
\<close>

definition updateAllUI :: "app \<Rightarrow> app" where
  "updateAllUI s =
     (let s1 = (case getActiveImageState s of
                  None \<Rightarrow> s
                | Some state \<Rightarrow>
                    s\<lparr>canvasWidth := img_width (imageElement state),
                      canvasHeight := img_height (imageElement state)\<rparr>)
      in updateButtonsState (renderMasksListUI (renderClassesUI (renderThumbnails s1))))"

definition setActiveImage :: "nat \<Rightarrow> app \<Rightarrow> app" where
  "setActiveImage imageId s = updateAllUI (s\<lparr>activeImageId := Some imageId\<rparr>)"

definition setActiveClass :: "string \<Rightarrow> app \<Rightarrow> app" where
  "setActiveClass n s = updateButtonsState (renderClassesUI (s\<lparr>activeClass := Some n\<rparr>))"


section \<open>The event handlers\<close>

subsection \<open>Pointer position to image coordinates\<close>

text \<open>
  Double arithmetic. \<open>binade x\<close> is the exponent \<open>e\<close> with
  \<open>2^e \<le> |x| < 2^(e+1)\<close>, found from the bit lengths of numerator and
  denominator. A double in that binade is a multiple of \<open>2^(e-52)\<close>, and no
  double is finer than \<open>2^(-1074)\<close>. \<open>toDouble\<close> rounds a rational to the nearest
  such multiple, a tie to the even one; a result of \<open>2^1024\<close> or more is an
  infinity. \<open>NaN\<close> and the two infinities are one value, \<open>NaNInf\<close>: in the
  computation below every operation on one of them gives one of them again.
  The sign of a zero is not kept; nothing that the handlers store or send
  depends on it.
\<close>

datatype jsnum = Num rat | NaNInf

definition binade :: "rat \<Rightarrow> int" where
  "binade x =
     (case quotient_of \<bar>x\<bar> of
        (p, q) \<Rightarrow>
          (let e = bitlen p - bitlen q in if 2 powi e \<le> \<bar>x\<bar> then e else e - 1))"

definition roundHalfEven :: "rat \<Rightarrow> int" where
  "roundHalfEven v =
     (let f = \<lfloor>v\<rfloor>; d = v - of_int f
      in if d < 1 / 2 then f
         else if 1 / 2 < d then f + 1
         else if even f then f else f + 1)"

definition toDouble :: "rat \<Rightarrow> jsnum" where
  "toDouble x =
     (if x = 0 then Num 0
      else
        (let quantum = 2 powi (max (binade x - 52) (- 1074));
             v = of_int (roundHalfEven (x / quantum)) * quantum
         in if 1024 \<le> binade v then NaNInf else Num v))"

text \<open>
  Subtraction and division of two finite doubles, and multiplication of two
  results. Division by zero gives an infinity or \<open>NaN\<close>.
\<close>

definition js_sub :: "rat \<Rightarrow> rat \<Rightarrow> jsnum" where
  "js_sub a b = toDouble (a - b)"

definition js_div :: "rat \<Rightarrow> rat \<Rightarrow> jsnum" where
  "js_div a b = (if b = 0 then NaNInf else toDouble (a / b))"

definition js_mul :: "jsnum \<Rightarrow> jsnum \<Rightarrow> jsnum" where
  "js_mul a b =
     (case a of
        NaNInf \<Rightarrow> NaNInf
      | Num x \<Rightarrow> (case b of NaNInf \<Rightarrow> NaNInf | Num y \<Rightarrow> toDouble (x * y)))"

text \<open>
  \<open>Math.round\<close> gives the nearest integer, a tie towards \<open>+\<infinity>\<close>; it is exact, and
  \<open>NaN\<close> and the infinities are returned as they are.
\<close>

definition Math_round :: "rat \<Rightarrow> int" where
  "Math_round v = \<lfloor>v + 1 / 2\<rfloor>"

definition js_round :: "jsnum \<Rightarrow> coord" where
  "js_round v = (case v of NaNInf \<Rightarrow> NonFinite | Num x \<Rightarrow> Px (Math_round x))"

text \<open>
  One axis of the \<open>mousedown\<close> handler:
  \<open>Math.round((e.clientX - rect.left) * (canvas.width / rect.width))\<close>, the quotient
  \<open>scaleX\<close> being computed first. \<open>canvas.width\<close> is an integer below \<open>2^32\<close>, which
  is a double.
\<close>

definition toImageCoord :: "rat \<Rightarrow> rat \<Rightarrow> nat \<Rightarrow> rat \<Rightarrow> coord" where
  "toImageCoord client origin canvasSize rectSize =
     js_round (js_mul (js_sub client origin) (js_div (of_nat canvasSize) rectSize))"

text \<open>
  What the handler reads of the event and of \<open>canvas.getBoundingClientRect()\<close>,
  each a finite double.
\<close>

record mouseEvent =
  clientX :: rat
  clientY :: rat
  button :: int

record domRect =
  rect_left :: rat
  rect_top :: rat
  rect_width :: rat
  rect_height :: rat

subsection \<open>Requesting a mask\<close>

text \<open>
  \<open>generateMask\<close> up to its \<open>await\<close>: the flag is raised and the request leaves
  with the points of that moment.
\<close>

definition generateMask :: "app \<Rightarrow> app" where
  "generateMask s =
     (case activeIndex s of
        None \<Rightarrow> s
      | Some i \<Rightarrow>
          (let state = imagesState s ! i in
           if points state = [] then s
           else s\<lparr>isPredicting := True,
                  pendingFetches := pendingFetches s @
                    [\<lparr>ft_state = i, ft_image_data = imageDataUrl state,
                      ft_points = points state\<rparr>]\<rparr>))"

definition canvas_mousedown :: "mouseEvent \<Rightarrow> domRect \<Rightarrow> app \<Rightarrow> app" where
  "canvas_mousedown e rect s =
     (case activeIndex s of
        None \<Rightarrow> s
      | Some i \<Rightarrow>
          if isPredicting s then s
          else
            (let x = toImageCoord (clientX e) (rect_left rect) (canvasWidth s) (rect_width rect);
                 y = toImageCoord (clientY e) (rect_top rect) (canvasHeight s) (rect_height rect);
                 label = (if button e = 0 then 1 else 0)
             in generateMask
                  (updState i
                     (\<lambda>state. state\<lparr>points := points state @
                                 [\<lparr>pt_x = x, pt_y = y, pt_label = label\<rparr>]\<rparr>) s)))"

text \<open>
  The outcome of the awaited request. \<open>Failed\<close> stands for every way into the
  \<open>catch\<close> block: a rejected \<open>fetch\<close>, a response that is not \<open>ok\<close>, a
  body that is not JSON.
\<close>

datatype response = Failed | Mask imageData

text \<open>
  The colour chosen after the \<open>await\<close>:
  \<open>activeClass ? findClassByName(activeClass).color : '#FF0000'\<close>. \<open>None\<close> is
  the \<open>TypeError\<close> of reading \<open>.color\<close> of \<open>undefined\<close>.
\<close>

definition maskColor :: "app \<Rightarrow> string option" where
  "maskColor s =
     (if isSet (activeClass s)
      then map_option color (findClassByName s (the (activeClass s)))
      else Some ''#FF0000'')"

definition removeAt :: "nat \<Rightarrow> 'a list \<Rightarrow> 'a list" where
  "removeAt k xs = take k xs @ drop (Suc k) xs"

text \<open>
  \<open>generateMask\<close> from its \<open>await\<close> on, for the \<open>k\<close>-th outstanding request.
  On success \<open>createColoredMask\<close> is started; \<open>finally\<close> lowers the flag
  before that promise resolves. On failure the \<open>catch\<close> block writes to the
  console and nothing else.
\<close>

definition predict_settled :: "nat \<Rightarrow> response \<Rightarrow> app \<Rightarrow> app" where
  "predict_settled k resp s =
     (if k < length (pendingFetches s)
      then
        (let t = pendingFetches s ! k;
             s1 = s\<lparr>pendingFetches := removeAt k (pendingFetches s)\<rparr>
         in case resp of
              Failed \<Rightarrow> s1\<lparr>isPredicting := False\<rparr>
            | Mask m \<Rightarrow>
                (case maskColor s of
                   None \<Rightarrow> s1\<lparr>isPredicting := False\<rparr>
                 | Some c \<Rightarrow>
                     s1\<lparr>pendingMasks := pendingMasks s @
                          [\<lparr>mt_state = ft_state t, mt_mask = m, mt_color = c\<rparr>],
                        isPredicting := False\<rparr>))
      else s)"

text \<open>
  The \<open>then\<close> callback of the \<open>k\<close>-th unresolved \<open>createColoredMask\<close>:
  \<open>state.currentMask = coloredMask; updateAllUI()\<close>. The two image loads inside
  \<open>createColoredMask\<close> touch no shared state and are one step here.
\<close>

definition mask_resolved :: "nat \<Rightarrow> app \<Rightarrow> app" where
  "mask_resolved k s =
     (if k < length (pendingMasks s)
      then
        (let t = pendingMasks s ! k;
             coloredMask = createColoredMask (mt_mask t) (mt_color t)
         in updateAllUI
              (updState (mt_state t) (\<lambda>state. state\<lparr>currentMask := Some coloredMask\<rparr>)
                 (s\<lparr>pendingMasks := removeAt k (pendingMasks s)\<rparr>)))
      else s)"

subsection \<open>Saving, clearing, classes, highlight, loading\<close>

text \<open>
  The click handler of \<open>saveMaskButton\<close>. The only exception it can raise is
  the \<open>TypeError\<close> of \<open>classInfo.name\<close> when \<open>findClassByName\<close> finds nothing;
  the object literal is evaluated before \<open>push\<close>, so nothing has been written
  then.
\<close>

datatype exn = TypeError

definition saveMaskButton_click :: "app \<Rightarrow> exn + app" where
  "saveMaskButton_click s =
     (case activeIndex s of
        None \<Rightarrow> Inr s
      | Some i \<Rightarrow>
          (case currentMask (imagesState s ! i) of
             None \<Rightarrow> Inr s
           | Some m \<Rightarrow>
               if \<not> isSet (activeClass s) then Inr s
               else
                 (case findClassByName s (the (activeClass s)) of
                    None \<Rightarrow> Inl TypeError
                  | Some classInfo \<Rightarrow>
                      Inr (updateAllUI
                        (updState i
                           (\<lambda>state. state\<lparr>savedMasks := savedMasks state @
                                       [\<lparr>maskImageObject = m, maskImageSrc = m,
                                         className = name classInfo,
                                         classColor = color classInfo\<rparr>],
                                     currentMask := None,
                                     points := []\<rparr>) s)))))"

definition clearPointsButton_click :: "app \<Rightarrow> app" where
  "clearPointsButton_click s =
     (case activeIndex s of
        None \<Rightarrow> s
      | Some i \<Rightarrow>
          (let state = imagesState s ! i in
           if points state \<noteq> [] \<or> currentMask state \<noteq> None
           then updateAllUI (updState i (\<lambda>state. state\<lparr>points := [], currentMask := None\<rparr>) s)
           else s))"

text \<open>
  \<open>String.prototype.trim\<close>: white space is removed at both ends; at the end,
  by removing the reversed tokens from the front of the reversed string.
\<close>

definition trim :: "string \<Rightarrow> string" where
  "trim str =
     rev (stripLeading (map rev whiteSpaceTokens) (rev (stripLeading whiteSpaceTokens str)))"

text \<open>
  The click handler of \<open>addClassButton\<close>, given the values of the two inputs.
  The \<open>else\<close> branch shows an alert and changes nothing.
\<close>

definition addClassButton_click :: "string \<Rightarrow> string \<Rightarrow> app \<Rightarrow> app" where
  "addClassButton_click inputValue colorValue s =
     (let className = trim inputValue in
      if className \<noteq> [] \<and> findClassByName s className = None
      then setActiveClass className
             (renderClassesUI
                (s\<lparr>classes := classes s @ [\<lparr>name = className, color = colorValue\<rparr>]\<rparr>))
      else s)"

text \<open>
  The click handler of \<open>masksListContainer\<close> for a click inside the list item
  whose \<open>data-mask-index\<close> is \<open>maskIndex\<close>.
\<close>

definition masksListContainer_click :: "nat \<Rightarrow> app \<Rightarrow> app" where
  "masksListContainer_click maskIndex s =
     (case activeIndex s of
        None \<Rightarrow> s
      | Some i \<Rightarrow>
          renderMasksListUI
            (updState i
               (\<lambda>state. state\<lparr>highlightedMaskIndex :=
                           (if highlightedMaskIndex state = Some maskIndex
                            then None else Some maskIndex)\<rparr>) s))"

text \<open>\<open>img.onload\<close> of one selected file, and the \<open>then\<close> of \<open>Promise.all\<close>.\<close>

definition image_onload :: "htmlImage \<Rightarrow> string \<Rightarrow> app \<Rightarrow> app" where
  "image_onload img url s =
     s\<lparr>imagesState := imagesState s @
         [\<lparr>imageElement = img, imageDataUrl = url, points = [], currentMask = None,
           savedMasks = [], highlightedMaskIndex = None\<rparr>]\<rparr>"

definition files_loaded :: "app \<Rightarrow> app" where
  "files_loaded s =
     (if activeImageId s = None \<and> imagesState s \<noteq> []
      then setActiveImage 0 s
      else renderThumbnails s)"

section \<open>Events, steps and reachable states\<close>

text \<open>
  Everything that can run between two turns of the event loop. The export
  handler and the language switch write nothing that is modelled except
  through \<open>updateAllUI\<close> (\<open>TranslationsApplied\<close>).
\<close>

datatype event =
    ImageOnload htmlImage string
  | FilesLoaded
  | MouseDown mouseEvent domRect
  | SaveMaskClick
  | ClearPointsClick
  | AddClassClick string string
  | ClassItemClick string
  | ThumbnailClick nat
  | MaskItemClick nat
  | PredictSettled nat response
  | MaskResolved nat
  | TranslationsApplied

text \<open>
  An event can occur when its target exists: a list item that was rendered, a
  button that is not disabled, a request or a promise that is outstanding.
  \<open>FilesLoaded\<close> is allowed at any time, which admits more runs than the
  browser has.
\<close>

fun enabled :: "event \<Rightarrow> app \<Rightarrow> bool" where
  "enabled SaveMaskClick s = (\<not> saveMaskDisabled s)"
| "enabled ClearPointsClick s = (\<not> clearPointsDisabled s)"
| "enabled (ClassItemClick n) s = (n \<in> set (classListItems s))"
| "enabled (ThumbnailClick i) s = (i < thumbnails s)"
| "enabled (MaskItemClick k) s = (k < masksListItems s)"
| "enabled (PredictSettled k resp) s = (k < length (pendingFetches s))"
| "enabled (MaskResolved k) s = (k < length (pendingMasks s))"
| "enabled _ s = True"

text \<open>An exception that escapes a handler ends it; the writes made before stay.\<close>

fun handle :: "event \<Rightarrow> app \<Rightarrow> app" where
  "handle (ImageOnload img url) s = image_onload img url s"
| "handle FilesLoaded s = files_loaded s"
| "handle (MouseDown e rect) s = canvas_mousedown e rect s"
| "handle SaveMaskClick s = (case saveMaskButton_click s of Inl _ \<Rightarrow> s | Inr s' \<Rightarrow> s')"
| "handle ClearPointsClick s = clearPointsButton_click s"
| "handle (AddClassClick inputValue colorValue) s = addClassButton_click inputValue colorValue s"
| "handle (ClassItemClick n) s = setActiveClass n s"
| "handle (ThumbnailClick i) s = setActiveImage i s"
| "handle (MaskItemClick k) s = masksListContainer_click k s"
| "handle (PredictSettled k resp) s = predict_settled k resp s"
| "handle (MaskResolved k) s = mask_resolved k s"
| "handle TranslationsApplied s = updateAllUI s"

text \<open>
  The state when the \<open>DOMContentLoaded\<close> handler has run: the closure
  variables at their initial values, nothing rendered by the script yet. What
  the document itself provides (canvas size, disabled attributes, list
  content) is left open.
\<close>

definition initial :: "app \<Rightarrow> bool" where
  "initial s =
     (imagesState s = [] \<and> activeImageId s = None \<and> classes s = [] \<and>
      activeClass s = None \<and> \<not> isPredicting s \<and> thumbnails s = 0 \<and>
      classListItems s = [] \<and> pendingFetches s = [] \<and> pendingMasks s = [])"

definition init :: app where
  "init = \<lparr>imagesState = [], activeImageId = None, classes = [], activeClass = None,
           isPredicting = False, canvasWidth = 300, canvasHeight = 150, thumbnails = 0,
           classListItems = [], masksListItems = 0, clearPointsDisabled = True,
           saveMaskDisabled = True, pendingFetches = [], pendingMasks = []\<rparr>"

inductive reachable :: "app \<Rightarrow> bool" where
  reach_initial: "initial s \<Longrightarrow> reachable s"
| reach_step: "reachable s \<Longrightarrow> enabled e s \<Longrightarrow> reachable (handle e s)"

text \<open>
  Running a list of events from a state, and whether each of them can occur
  when its turn comes.
\<close>

fun exec :: "event list \<Rightarrow> app \<Rightarrow> app" where
  "exec [] s = s"
| "exec (e # es) s = exec es (handle e s)"

fun feasible :: "event list \<Rightarrow> app \<Rightarrow> bool" where
  "feasible [] s = True"
| "feasible (e # es) s = (enabled e s \<and> feasible es (handle e s))"

section \<open>Invariants of the reachable states\<close>

text \<open>The active id, when set, names an existing entry; so does every thumbnail.\<close>

definition inv_active :: "app \<Rightarrow> bool" where
  "inv_active s =
     ((case activeImageId s of None \<Rightarrow> True | Some i \<Rightarrow> i < length (imagesState s)) \<and>
      thumbnails s \<le> length (imagesState s))"

text \<open>
  While an image is active, the rendered mask list has one item per saved mask
  of that image, and the canvas has the size of that image.
\<close>

definition inv_dom :: "app \<Rightarrow> bool" where
  "inv_dom s =
     (case activeImageId s of
        None \<Rightarrow> True
      | Some i \<Rightarrow>
          masksListItems s = length (savedMasks (imagesState s ! i)) \<and>
          canvasWidth s = img_width (imageElement (imagesState s ! i)) \<and>
          canvasHeight s = img_height (imageElement (imagesState s ! i)))"

definition inv_highlight :: "app \<Rightarrow> bool" where
  "inv_highlight s =
     (\<forall>state \<in> set (imagesState s).
        case highlightedMaskIndex state of
          None \<Rightarrow> True
        | Some h \<Rightarrow> h < length (savedMasks state))"

text \<open>At most one request is outstanding, and the flag is up exactly then.\<close>

definition inv_predicting :: "app \<Rightarrow> bool" where
  "inv_predicting s =
     (length (pendingFetches s) \<le> 1 \<and> (isPredicting s \<longleftrightarrow> pendingFetches s \<noteq> []))"

definition inv_tasks :: "app \<Rightarrow> bool" where
  "inv_tasks s =
     ((\<forall>t \<in> set (pendingFetches s). ft_state t < length (imagesState s)) \<and>
      (\<forall>t \<in> set (pendingMasks s). mt_state t < length (imagesState s)))"

text \<open>The active class and every rendered class item are registered, non-empty names.\<close>

definition inv_classes :: "app \<Rightarrow> bool" where
  "inv_classes s =
     ((case activeClass s of None \<Rightarrow> True | Some c \<Rightarrow> c \<in> name ` set (classes s)) \<and>
      set (classListItems s) \<subseteq> name ` set (classes s) \<and>
      (\<forall>c \<in> set (classes s). name c \<noteq> []))"

section \<open>Concrete sessions\<close>

text \<open>
  Inputs for the evaluations below: an 800 x 600 image shown at 400 x 300, a
  primary-button click at viewport position (100, 100), and a mask of two
  pixels as the service returns it, the first inside the segment.
\<close>

definition photo :: htmlImage where
  "photo = \<lparr>img_width = 800, img_height = 600\<rparr>"

definition halfSize :: domRect where
  "halfSize = \<lparr>rect_left = 0, rect_top = 0, rect_width = 400, rect_height = 300\<rparr>"

definition click :: mouseEvent where
  "click = \<lparr>clientX = 100, clientY = 100, button = 0\<rparr>"

definition rawMask :: imageData where
  "rawMask = \<lparr>im_width = 2, im_height = 1, im_data = [0, 0, 0, 255, 0, 0, 0, 0]\<rparr>"

text \<open>One file is chosen and decoded; it becomes the active image.\<close>

definition loadPhoto :: "event list" where
  "loadPhoto = [ImageOnload photo ''data:photo'', FilesLoaded]"

text \<open>A click, the answer of the service, and the coloured mask being ready.\<close>

definition clickAndMask :: "event list" where
  "clickAndMask = [MouseDown click halfSize, PredictSettled 0 (Mask rawMask), MaskResolved 0]"




text \<open>
  The states these sessions pass through, written out. \<open>atPhoto\<close>: the image is
  loaded and active. \<open>inFlight\<close>: one point placed, its request outstanding.
  \<open>withRedMask\<close>: the answer has been coloured (no class was active, so red)
  and is the pending mask. \<open>oneSaved\<close>: class \<open>cat\<close> with colour \<open>#00ff00\<close> was
  added and the mask saved. \<open>twoSaved\<close>: a second point, mask and save.
\<close>

definition thePoint :: point where
  "thePoint = \<lparr>pt_x = Px 200, pt_y = Px 200, pt_label = 1\<rparr>"

definition redMask :: imageData where
  "redMask = \<lparr>im_width = 2, im_height = 1, im_data = [255, 0, 0, 128, 0, 0, 0, 0]\<rparr>"

definition greenMask :: imageData where
  "greenMask = \<lparr>im_width = 2, im_height = 1, im_data = [0, 255, 0, 128, 0, 0, 0, 0]\<rparr>"

definition atPhoto :: app where
  "atPhoto =
     \<lparr>imagesState =
        [\<lparr>imageElement = photo, imageDataUrl = ''data:photo'', points = [],
          currentMask = None, savedMasks = [], highlightedMaskIndex = None\<rparr>],
      activeImageId = Some 0, classes = [], activeClass = None, isPredicting = False,
      canvasWidth = 800, canvasHeight = 600, thumbnails = 1, classListItems = [],
      masksListItems = 0, clearPointsDisabled = True, saveMaskDisabled = True,
      pendingFetches = [], pendingMasks = []\<rparr>"

definition inFlight :: app where
  "inFlight =
     \<lparr>imagesState =
        [\<lparr>imageElement = photo, imageDataUrl = ''data:photo'', points = [thePoint],
          currentMask = None, savedMasks = [], highlightedMaskIndex = None\<rparr>],
      activeImageId = Some 0, classes = [], activeClass = None, isPredicting = True,
      canvasWidth = 800, canvasHeight = 600, thumbnails = 1, classListItems = [],
      masksListItems = 0, clearPointsDisabled = True, saveMaskDisabled = True,
      pendingFetches =
        [\<lparr>ft_state = 0, ft_image_data = ''data:photo'', ft_points = [thePoint]\<rparr>],
      pendingMasks = []\<rparr>"

definition withRedMask :: app where
  "withRedMask =
     \<lparr>imagesState =
        [\<lparr>imageElement = photo, imageDataUrl = ''data:photo'', points = [thePoint],
          currentMask = Some redMask, savedMasks = [], highlightedMaskIndex = None\<rparr>],
      activeImageId = Some 0, classes = [], activeClass = None, isPredicting = False,
      canvasWidth = 800, canvasHeight = 600, thumbnails = 1, classListItems = [],
      masksListItems = 0, clearPointsDisabled = False, saveMaskDisabled = True,
      pendingFetches = [], pendingMasks = []\<rparr>"

definition catMask :: "imageData \<Rightarrow> savedMask" where
  "catMask m = \<lparr>maskImageObject = m, maskImageSrc = m, className = ''cat'',
                 classColor = ''#00ff00''\<rparr>"

definition oneSaved :: app where
  "oneSaved =
     \<lparr>imagesState =
        [\<lparr>imageElement = photo, imageDataUrl = ''data:photo'', points = [],
          currentMask = None, savedMasks = [catMask redMask],
          highlightedMaskIndex = None\<rparr>],
      activeImageId = Some 0, classes = [\<lparr>name = ''cat'', color = ''#00ff00''\<rparr>],
      activeClass = Some ''cat'', isPredicting = False,
      canvasWidth = 800, canvasHeight = 600, thumbnails = 1, classListItems = [''cat''],
      masksListItems = 1, clearPointsDisabled = True, saveMaskDisabled = True,
      pendingFetches = [], pendingMasks = []\<rparr>"

definition twoSaved :: app where
  "twoSaved =
     \<lparr>imagesState =
        [\<lparr>imageElement = photo, imageDataUrl = ''data:photo'', points = [],
          currentMask = None, savedMasks = [catMask redMask, catMask greenMask],
          highlightedMaskIndex = None\<rparr>],
      activeImageId = Some 0, classes = [\<lparr>name = ''cat'', color = ''#00ff00''\<rparr>],
      activeClass = Some ''cat'', isPredicting = False,
      canvasWidth = 800, canvasHeight = 600, thumbnails = 1, classListItems = [''cat''],
      masksListItems = 2, clearPointsDisabled = True, saveMaskDisabled = True,
      pendingFetches = [], pendingMasks = []\<rparr>"

definition addCatAndSave :: "event list" where
  "addCatAndSave = [AddClassClick ''cat'' ''#00ff00'', SaveMaskClick]"

definition twoMasks :: "event list" where
  "twoMasks = loadPhoto @ clickAndMask @ addCatAndSave @ clickAndMask @ [SaveMaskClick]"


text \<open>
  Sessions in which the user acts while work is outstanding. \<open>secondPoint\<close>:
  the answer to the first point has arrived and is being coloured when a
  second point is placed. \<open>staleAfterClear\<close> (from \<open>withRedMask\<close>): a further
  point is placed, the points are cleared, then the answer arrives.
  \<open>failAfterMask\<close> (from \<open>withRedMask\<close>): a further point is placed and its
  request fails. \<open>blockedClick\<close>: a second click while the first request is
  outstanding.
\<close>

definition secondPoint :: "event list" where
  "secondPoint =
     [MouseDown click halfSize, PredictSettled 0 (Mask rawMask), MouseDown click halfSize]"

definition staleAfterPoint :: "event list" where
  "staleAfterPoint = secondPoint @ [MaskResolved 0]"

definition staleAfterClear :: "event list" where
  "staleAfterClear =
     [MouseDown click halfSize, ClearPointsClick, PredictSettled 0 (Mask rawMask), MaskResolved 0]"

definition failAfterMask :: "event list" where
  "failAfterMask = [MouseDown click halfSize, PredictSettled 0 Failed]"

definition blockedClick :: "event list" where
  "blockedClick = [MouseDown click halfSize, MouseDown click halfSize]"

section \<open>The recolouring loop\<close>

lemma length_recolorLoop [simp]: "length (recolorLoop r g b i data) = length data"
  by (induction r g b i data rule: recolorLoop.induct)
     (subst recolorLoop.simps, simp)

text \<open>
  Parsing the colour: two hexadecimal digits \<open>h\<close>, \<open>l\<close> with values \<open>d\<close>, \<open>e\<close> are
  stored as the byte \<open>16 * d + e\<close>.
\<close>

lemma whiteSpaceTokens_head:
  "w \<in> set whiteSpaceTokens \<Longrightarrow>
   w \<noteq> [] \<and> (of_char (hd w) :: nat) \<in> {9, 10, 11, 12, 13, 32, 194, 225, 226, 227, 239}"
  by (auto simp: whiteSpaceTokens_def)

lemma hexDigit_range:
  "hexDigit c = Some d \<Longrightarrow>
   d < 16 \<and> ((48 \<le> (of_char c :: nat) \<and> (of_char c :: nat) \<le> 57) \<or>
             (97 \<le> (of_char c :: nat) \<and> (of_char c :: nat) \<le> 102) \<or>
             (65 \<le> (of_char c :: nat) \<and> (of_char c :: nat) \<le> 70))"
  by (auto simp: hexDigit_def Let_def split: if_splits)

lemma hexDigit_not_sign:
  assumes "hexDigit c = Some d"
  shows "c \<noteq> CHR ''+''" and "c \<noteq> CHR ''-''" and "c \<noteq> CHR ''x''" and "c \<noteq> CHR ''X''"
  using hexDigit_range [OF assms] by auto

lemma hexDigit_not_white:
  assumes "hexDigit c = Some d"
  shows "stripLeading whiteSpaceTokens (c # cs) = c # cs"
proof -
  have "find (\<lambda>w. take (length w) (c # cs) = w) whiteSpaceTokens = None"
  proof (subst find_None_iff, intro notI, elim exE conjE)
    fix w
    assume w: "w \<in> set whiteSpaceTokens" and t: "take (length w) (c # cs) = w"
    obtain x xs where wx: "w = x # xs" using whiteSpaceTokens_head [OF w] by (cases w) auto
    then have "x = c" using t by simp
    then have "(of_char c :: nat) \<in> {9, 10, 11, 12, 13, 32, 194, 225, 226, 227, 239}"
      using whiteSpaceTokens_head [OF w] wx by simp
    then show False using hexDigit_range [OF assms] by auto
  qed
  then have "leadingWhiteSpace whiteSpaceTokens (c # cs) = 0"
    by (simp add: leadingWhiteSpace_def)
  then show ?thesis by (subst stripLeading.simps) simp
qed

lemma parseInt16_digits:
  assumes "hexDigit h = Some d" and "hexDigit l = Some e"
  shows "toUint8Clamp (parseInt16 [h, l]) = of_nat (16 * d + e)"
proof -
  have lt: "16 * d + e < 256"
    using hexDigit_range [OF assms(1)] hexDigit_range [OF assms(2)] by simp
  have "parseInt16 [h, l] = Some (int (16 * d + e))"
    using assms hexDigit_not_sign(1,2) [OF assms(1)] hexDigit_not_sign(3,4) [OF assms(2)]
    by (simp add: parseInt16_def hexDigit_not_white [OF assms(1)] Let_def)
  then show ?thesis using lt by (simp add: toUint8Clamp_def)
qed

lemma hexChannels_digits:
  assumes "hexDigit h1 = Some d1" "hexDigit h2 = Some d2" "hexDigit h3 = Some d3"
    "hexDigit h4 = Some d4" "hexDigit h5 = Some d5" "hexDigit h6 = Some d6"
  shows "hexChannels (c # h1 # h2 # h3 # h4 # h5 # h6 # rest) =
           (of_nat (16 * d1 + d2), of_nat (16 * d3 + d4), of_nat (16 * d5 + d6))"
  using assms by (simp add: hexChannels_def slice_def parseInt16_digits)

text \<open>The loop started at \<open>i\<close> never writes below \<open>i\<close>.\<close>

lemma recolorLoop_below: "n < i \<Longrightarrow> recolorLoop r g b i data ! n = data ! n"
proof (induction r g b i data rule: recolorLoop.induct)
  case (1 r g b i data)
  show ?case
  proof (cases "i < length data")
    case True
    let ?d = "if i + 3 < length data \<and> 0 < data ! (i + 3)
              then data[i := r, i + 1 := g, i + 2 := b, i + 3 := 128] else data"
    have "recolorLoop r g b i data ! n = recolorLoop r g b (i + 4) ?d ! n"
      using True by (subst recolorLoop.simps) simp
    also have "\<dots> = ?d ! n"
      using "1.IH"[OF True] "1.prems" by simp
    also have "\<dots> = data ! n"
      using "1.prems" by simp
    finally show ?thesis .
  next
    case False
    then show ?thesis by (subst recolorLoop.simps) simp
  qed
qed

text \<open>
  Started at a pixel boundary \<open>4j\<close>, the loop gives every complete pixel
  \<open>k \<ge> j\<close> the colour and alpha 128 when its alpha was positive, and leaves it
  as it was otherwise.
\<close>

lemma recolorLoop_pixel:
  "i = 4 * j \<Longrightarrow> j \<le> k \<Longrightarrow> 4 * k + 3 < length data \<Longrightarrow>
   pixel (recolorLoop r g b i data) k =
     (if 0 < alpha data k then (r, g, b, 128) else pixel data k)"
proof (induction r g b i data arbitrary: j rule: recolorLoop.induct)
  case (1 r g b i data)
  let ?d = "if i + 3 < length data \<and> 0 < data ! (i + 3)
            then data[i := r, i + 1 := g, i + 2 := b, i + 3 := 128] else data"
  have lt: "i < length data" using "1.prems" by simp
  have unf: "recolorLoop r g b i data = recolorLoop r g b (i + 4) ?d"
    using lt by (subst recolorLoop.simps) simp
  show ?case
  proof (cases "j = k")
    case True
    have "pixel (recolorLoop r g b (i + 4) ?d) k = pixel ?d k"
      using True "1.prems" by (simp add: pixel_def recolorLoop_below)
    also have "\<dots> = (if 0 < alpha data k then (r, g, b, 128) else pixel data k)"
      using True "1.prems" by (simp add: pixel_def alpha_def)
    finally show ?thesis using unf by simp
  next
    case False
    then have jk: "Suc j \<le> k" using "1.prems" by simp
    have len: "4 * k + 3 < length ?d" using "1.prems" by simp
    have "pixel (recolorLoop r g b (i + 4) ?d) k =
            (if 0 < alpha ?d k then (r, g, b, 128) else pixel ?d k)"
      using "1.IH"[OF lt _ jk len] "1.prems" by simp
    moreover have "alpha ?d k = alpha data k" "pixel ?d k = pixel data k"
      using jk "1.prems" by (simp_all add: pixel_def alpha_def)
    ultimately show ?thesis using unf by simp
  qed
qed


lemma hexDigit_values:
  "hexDigit CHR ''0'' = Some 0" "hexDigit CHR ''3'' = Some 3" "hexDigit CHR ''6'' = Some 6"
  "hexDigit CHR ''c'' = Some 12" "hexDigit CHR ''f'' = Some 15" "hexDigit CHR ''F'' = Some 15"
  by (simp_all add: hexDigit_def)

lemma hexChannels_red: "hexChannels ''#FF0000'' = (255, 0, 0)"
  using hexChannels_digits [OF hexDigit_values(6,6,1,1,1,1), of "CHR ''#''" "[]"] by simp

lemma hexChannels_green: "hexChannels ''#00ff00'' = (0, 255, 0)"
  using hexChannels_digits [OF hexDigit_values(1,1,5,5,1,1), of "CHR ''#''" "[]"] by simp



text \<open>
  What the canvas does to the buffer afterwards leaves every alpha as it is:
  in the image that \<open>createColoredMask\<close> resolves to, a pixel has alpha 128
  where the mask had a positive alpha and alpha 0 elsewhere.
\<close>

lemma length_throughCanvas [simp]: "length (throughCanvas xs) = length xs"
  by (induction xs rule: throughCanvas.induct) auto

lemma alpha_throughCanvas:
  "4 * k + 3 < length xs \<Longrightarrow> alpha (throughCanvas xs) k = alpha xs k"
proof (induction xs arbitrary: k rule: throughCanvas.induct)
  case (1 r g b a rest)
  show ?case
  proof (cases k)
    case 0
    then show ?thesis by (simp add: alpha_def)
  next
    case (Suc n)
    then have "4 * n + 3 < length rest" using "1.prems" by simp
    then have "alpha (throughCanvas rest) n = alpha rest n" by (rule "1.IH")
    then have "throughCanvas rest ! (3 + 4 * n) = rest ! (3 + 4 * n)"
      by (simp add: alpha_def add.commute)
    then show ?thesis using Suc by (simp add: alpha_def nth_append)
  qed
qed (simp_all add: alpha_def)

lemma hexChannels_cases: "\<exists>r g b. hexChannels hexColor = (r, g, b)"
  by (cases "hexChannels hexColor") auto

lemma alpha_recolored:
  assumes "4 * k + 3 < length data"
  shows "alpha (recolored data hexColor) k = (if 0 < alpha data k then 128 else 0)"
proof -
  obtain r g b where h: "hexChannels hexColor = (r, g, b)" using hexChannels_cases by blast
  have "pixel (recolorLoop r g b 0 data) k =
      (if 0 < alpha data k then (r, g, b, 128) else pixel data k)"
    using assms by (intro recolorLoop_pixel [where j = 0]) simp_all
  moreover have "alpha (recolorLoop r g b 0 data) k =
      snd (snd (snd (pixel (recolorLoop r g b 0 data) k)))"
    by (simp add: pixel_def alpha_def)
  moreover have "alpha data k = snd (snd (snd (pixel data k)))"
    by (simp add: pixel_def alpha_def)
  ultimately show ?thesis using word_gt_0 [of "alpha data k"] by (auto simp add: recolored_def h)
qed

lemma length_recolored [simp]: "length (recolored data hexColor) = length data"
  using hexChannels_cases [of hexColor] by (auto simp: recolored_def)

lemma createColoredMask_alpha:
  assumes "4 * k + 3 < length (im_data maskImage)"
  shows "alpha (im_data (createColoredMask maskImage hexColor)) k =
           (if 0 < alpha (im_data maskImage) k then 128 else 0)"
  using assms
  by (simp add: createColoredMask_def alpha_throughCanvas alpha_recolored)

section \<open>Preservation of the invariants\<close>

text \<open>The invariants in the form used by the proofs.\<close>

lemma inv_active_alt:
  "inv_active s =
     ((\<forall>i. activeImageId s = Some i \<longrightarrow> i < length (imagesState s)) \<and>
      thumbnails s \<le> length (imagesState s))"
  by (simp add: inv_active_def split: option.splits)

lemma inv_dom_alt:
  "inv_dom s =
     (\<forall>i. activeImageId s = Some i \<longrightarrow>
        masksListItems s = length (savedMasks (imagesState s ! i)) \<and>
        canvasWidth s = img_width (imageElement (imagesState s ! i)) \<and>
        canvasHeight s = img_height (imageElement (imagesState s ! i)))"
  by (simp add: inv_dom_def split: option.splits)

lemma inv_highlight_alt:
  "inv_highlight s =
     (\<forall>state \<in> set (imagesState s). \<forall>h. highlightedMaskIndex state = Some h \<longrightarrow>
        h < length (savedMasks state))"
  by (simp add: inv_highlight_def split: option.splits)

lemma inv_classes_alt:
  "inv_classes s =
     ((\<forall>c. activeClass s = Some c \<longrightarrow> c \<in> name ` set (classes s)) \<and>
      set (classListItems s) \<subseteq> name ` set (classes s) \<and>
      (\<forall>c \<in> set (classes s). name c \<noteq> []))"
  by (simp add: inv_classes_def split: option.splits)

lemmas render_defs = renderThumbnails_def renderClassesUI_def renderMasksListUI_def
  updateButtonsState_def updateAllUI_def setActiveImage_def setActiveClass_def

lemma updateAllUI_fields [simp]:
  "imagesState (updateAllUI s) = imagesState s"
  "activeImageId (updateAllUI s) = activeImageId s"
  "classes (updateAllUI s) = classes s"
  "activeClass (updateAllUI s) = activeClass s"
  "isPredicting (updateAllUI s) = isPredicting s"
  "pendingFetches (updateAllUI s) = pendingFetches s"
  "pendingMasks (updateAllUI s) = pendingMasks s"
  "thumbnails (updateAllUI s) = length (imagesState s)"
  "classListItems (updateAllUI s) = map name (classes s)"
  by (simp_all add: render_defs Let_def getActiveImageState_def activeIndex_def split: option.splits)

lemma activeIndex_updateAllUI [simp]: "activeIndex (updateAllUI s) = activeIndex s"
  by (simp add: activeIndex_def split: option.splits)

lemma getActive_updateAllUI [simp]: "getActiveImageState (updateAllUI s) = getActiveImageState s"
  by (simp add: getActiveImageState_def)

lemma updateAllUI_dom:
  "masksListItems (updateAllUI s) =
     (case getActiveImageState s of None \<Rightarrow> 0 | Some state \<Rightarrow> length (savedMasks state))"
  "getActiveImageState s = Some state \<Longrightarrow> canvasWidth (updateAllUI s) = img_width (imageElement state)"
  "getActiveImageState s = Some state \<Longrightarrow> canvasHeight (updateAllUI s) = img_height (imageElement state)"
  "clearPointsDisabled (updateAllUI s) =
     (case getActiveImageState s of None \<Rightarrow> True
      | Some state \<Rightarrow> \<not> (points state \<noteq> [] \<or> currentMask state \<noteq> None))"
  "saveMaskDisabled (updateAllUI s) =
     (case getActiveImageState s of None \<Rightarrow> True
      | Some state \<Rightarrow> \<not> (currentMask state \<noteq> None \<and> isSet (activeClass s)))"
  by (auto simp add: render_defs Let_def getActiveImageState_def activeIndex_def split: option.splits if_splits)

lemma updState_fields [simp]:
  "imagesState (updState i f s) = (imagesState s)[i := f (imagesState s ! i)]"
  "activeImageId (updState i f s) = activeImageId s"
  "classes (updState i f s) = classes s"
  "activeClass (updState i f s) = activeClass s"
  "isPredicting (updState i f s) = isPredicting s"
  "pendingFetches (updState i f s) = pendingFetches s"
  "pendingMasks (updState i f s) = pendingMasks s"
  "thumbnails (updState i f s) = thumbnails s"
  "classListItems (updState i f s) = classListItems s"
  "masksListItems (updState i f s) = masksListItems s"
  "canvasWidth (updState i f s) = canvasWidth s"
  "canvasHeight (updState i f s) = canvasHeight s"
  by (simp_all add: updState_def)

lemma activeIndex_updState [simp]: "activeIndex (updState i f s) = activeIndex s"
  by (simp add: activeIndex_def split: option.splits)

lemma activeIndex_Some: "activeIndex s = Some i \<longleftrightarrow> activeImageId s = Some i \<and> i < length (imagesState s)"
  by (auto simp add: activeIndex_def split: option.splits)

lemma activeIndex_None: "activeIndex s = None \<longleftrightarrow> (\<forall>i. activeImageId s = Some i \<longrightarrow> \<not> i < length (imagesState s))"
  by (simp add: activeIndex_def split: option.splits)

lemma getActive_Some: "getActiveImageState s = Some st \<longleftrightarrow> (\<exists>i. activeImageId s = Some i \<and> i < length (imagesState s) \<and> st = imagesState s ! i)"
  by (auto simp add: getActiveImageState_def activeIndex_def split: option.splits)

lemmas handler_defs = generateMask_def canvas_mousedown_def predict_settled_def mask_resolved_def
  saveMaskButton_click_def clearPointsButton_click_def addClassButton_click_def
  masksListContainer_click_def image_onload_def files_loaded_def

lemmas small_defs = renderThumbnails_def renderClassesUI_def renderMasksListUI_def
  updateButtonsState_def setActiveImage_def setActiveClass_def

lemma step_inv_active: "inv_active s \<Longrightarrow> enabled e s \<Longrightarrow> inv_active (handle e s)"
  unfolding inv_active_alt
  by (cases e) (auto simp: handler_defs small_defs Let_def split: option.splits sum.splits response.splits)

lemma step_inv_predicting: "inv_predicting s \<Longrightarrow> enabled e s \<Longrightarrow> inv_predicting (handle e s)"
  unfolding inv_predicting_def
  by (cases e) (auto simp: handler_defs small_defs removeAt_def Let_def length_Suc_conv split: option.splits sum.splits response.splits)

lemma step_inv_classes: "inv_classes s \<Longrightarrow> enabled e s \<Longrightarrow> inv_classes (handle e s)"
  unfolding inv_classes_alt
  by (cases e) (auto simp: handler_defs small_defs removeAt_def Let_def split: option.splits sum.splits response.splits)

lemma step_inv_tasks: "inv_active s \<Longrightarrow> inv_tasks s \<Longrightarrow> enabled e s \<Longrightarrow> inv_tasks (handle e s)"
  unfolding inv_tasks_def inv_active_alt
  by (cases e) (auto simp: handler_defs small_defs removeAt_def Let_def activeIndex_Some split: option.splits sum.splits response.splits dest: in_set_takeD in_set_dropD)


lemma step_inv_dom: "inv_active s \<Longrightarrow> inv_dom s \<Longrightarrow> enabled e s \<Longrightarrow> inv_dom (handle e s)"
  unfolding inv_dom_alt inv_active_alt
  by (cases e) (auto simp: handler_defs small_defs updateAllUI_dom getActiveImageState_def activeIndex_def Let_def nth_append nth_list_update split: option.splits sum.splits response.splits if_splits)

lemma imagesState_generateMask [simp]: "imagesState (generateMask s) = imagesState s"
  by (simp add: generateMask_def Let_def split: option.splits)

lemma inv_highlight_render [simp]:
  "inv_highlight (updateAllUI s) = inv_highlight s"
  "inv_highlight (generateMask s) = inv_highlight s"
  "inv_highlight (renderThumbnails s) = inv_highlight s"
  "inv_highlight (renderClassesUI s) = inv_highlight s"
  "inv_highlight (renderMasksListUI s) = inv_highlight s"
  "inv_highlight (updateButtonsState s) = inv_highlight s"
  "inv_highlight (setActiveImage i s) = inv_highlight s"
  "inv_highlight (setActiveClass n s) = inv_highlight s"
  by (simp_all add: inv_highlight_alt small_defs Let_def)

lemma inv_highlight_updState:
  assumes "inv_highlight s"
    and "\<And>h. i < length (imagesState s) \<Longrightarrow>
           highlightedMaskIndex (f (imagesState s ! i)) = Some h \<Longrightarrow>
           h < length (savedMasks (f (imagesState s ! i)))"
  shows "inv_highlight (updState i f s)"
proof (cases "i < length (imagesState s)")
  case True
  have "set ((imagesState s)[i := f (imagesState s ! i)])
          \<subseteq> insert (f (imagesState s ! i)) (set (imagesState s))"
    by (rule set_update_subset_insert)
  then show ?thesis
    using assms True unfolding inv_highlight_alt by (auto simp: updState_def)
next
  case False
  then have "(imagesState s)[i := f (imagesState s ! i)] = imagesState s"
    by (intro list_update_beyond) simp
  then show ?thesis using assms(1) by (simp add: inv_highlight_alt updState_def)
qed

lemma inv_highlight_updState_mono:
  assumes "inv_highlight s"
    and "\<And>st. highlightedMaskIndex (f st) = highlightedMaskIndex st"
    and "\<And>st. length (savedMasks st) \<le> length (savedMasks (f st))"
  shows "inv_highlight (updState i f s)"
proof (rule inv_highlight_updState [OF assms(1)])
  fix h
  assume i: "i < length (imagesState s)"
    and h: "highlightedMaskIndex (f (imagesState s ! i)) = Some h"
  from h have "highlightedMaskIndex (imagesState s ! i) = Some h" by (simp add: assms(2))
  with i assms(1) have "h < length (savedMasks (imagesState s ! i))"
    by (simp add: inv_highlight_alt)
  with assms(3)[of "imagesState s ! i"] show "h < length (savedMasks (f (imagesState s ! i)))"
    by simp
qed

lemma step_inv_highlight:
  assumes "inv_active s" "inv_dom s" "inv_highlight s" "enabled e s"
  shows "inv_highlight (handle e s)"
proof (cases e)
  case (ImageOnload img url)
  then show ?thesis using assms(3) by (auto simp: image_onload_def inv_highlight_alt)
next
  case FilesLoaded
  then show ?thesis using assms(3) by (simp add: files_loaded_def)
next
  case (MouseDown ev rect)
  have "inv_highlight (canvas_mousedown ev rect s)"
  proof (cases "activeIndex s = None \<or> isPredicting s")
    case True
    then show ?thesis using assms(3) by (auto simp: canvas_mousedown_def split: option.splits)
  next
    case False
    then obtain i where "activeIndex s = Some i" by auto
    with False show ?thesis
      by (simp add: canvas_mousedown_def Let_def inv_highlight_updState_mono [OF assms(3)])
  qed
  then show ?thesis using MouseDown by simp
next
  case SaveMaskClick
  have "inv_highlight (case saveMaskButton_click s of Inl _ \<Rightarrow> s | Inr s' \<Rightarrow> s')"
    using assms(3)
    by (simp add: saveMaskButton_click_def inv_highlight_updState_mono [OF assms(3)]
        split: option.splits)
  then show ?thesis using SaveMaskClick by simp
next
  case ClearPointsClick
  have "inv_highlight (clearPointsButton_click s)"
    using assms(3)
    by (simp add: clearPointsButton_click_def Let_def inv_highlight_updState_mono [OF assms(3)]
        split: option.splits)
  then show ?thesis using ClearPointsClick by simp
next
  case (AddClassClick inputValue colorValue)
  then show ?thesis using assms(3)
    by (simp add: addClassButton_click_def Let_def inv_highlight_alt small_defs)
next
  case (ClassItemClick n)
  then show ?thesis using assms(3) by simp
next
  case (ThumbnailClick i)
  then show ?thesis using assms(3) by (simp add: setActiveImage_def inv_highlight_alt)
next
  case (MaskItemClick k)
  have k: "k < masksListItems s" using assms(4) MaskItemClick by simp
  have "inv_highlight (masksListContainer_click k s)"
  proof (cases "activeIndex s")
    case None
    then show ?thesis using assms(3) by (simp add: masksListContainer_click_def)
  next
    case (Some i)
    then have "activeImageId s = Some i" by (simp add: activeIndex_Some)
    then have kk: "k < length (savedMasks (imagesState s ! i))"
      using assms(2) k by (simp add: inv_dom_alt)
    have "inv_highlight (updState i
               (\<lambda>state. state\<lparr>highlightedMaskIndex :=
                           (if highlightedMaskIndex state = Some k
                            then None else Some k)\<rparr>) s)"
      using kk by (intro inv_highlight_updState [OF assms(3)]) (simp split: if_splits)
    then show ?thesis
      using Some by (simp add: masksListContainer_click_def)
  qed
  then show ?thesis using MaskItemClick by simp
next
  case (PredictSettled k resp)
  then show ?thesis using assms(3)
    by (auto simp: predict_settled_def Let_def inv_highlight_alt split: response.splits option.splits)
next
  case (MaskResolved k)
  have "inv_highlight (s\<lparr>pendingMasks := removeAt k (pendingMasks s)\<rparr>)"
    using assms(3) by (simp add: inv_highlight_alt)
  then have "inv_highlight (mask_resolved k s)"
    using assms(3) by (simp add: mask_resolved_def Let_def inv_highlight_updState_mono)
  then show ?thesis using MaskResolved by simp
next
  case TranslationsApplied
  then show ?thesis using assms(3) by simp
qed

lemma reachable_inv: "reachable s \<Longrightarrow> inv_active s \<and> inv_dom s \<and> inv_highlight s \<and> inv_predicting s \<and> inv_tasks s \<and> inv_classes s"
proof (induction rule: reachable.induct)
  case (reach_initial s)
  then show ?case
    by (simp add: initial_def inv_active_alt inv_dom_alt inv_highlight_alt inv_predicting_def
        inv_tasks_def inv_classes_alt)
next
  case (reach_step s e)
  then show ?case
    by (simp add: step_inv_active step_inv_dom step_inv_highlight step_inv_predicting
        step_inv_tasks step_inv_classes)
qed


section \<open>Evaluating the concrete sessions\<close>

lemma exec_append: "exec (xs @ ys) s = exec ys (exec xs s)"
  by (induction xs arbitrary: s) simp_all

lemma feasible_append: "feasible (xs @ ys) s = (feasible xs s \<and> feasible ys (exec xs s))"
  by (induction xs arbitrary: s) simp_all

lemma feasible_reachable: "reachable s \<Longrightarrow> feasible es s \<Longrightarrow> reachable (exec es s)"
  by (induction es arbitrary: s) (auto intro: reach_step)

lemma initial_init: "initial init"
  by (simp add: initial_def init_def)

lemmas eval_defs = generateMask_def canvas_mousedown_def predict_settled_def mask_resolved_def
  saveMaskButton_click_def clearPointsButton_click_def addClassButton_click_def
  masksListContainer_click_def image_onload_def files_loaded_def
  renderThumbnails_def renderClassesUI_def renderMasksListUI_def
  updateButtonsState_def setActiveImage_def setActiveClass_def updateAllUI_def
  getActiveImageState_def activeIndex_def updState_def removeAt_def maskColor_def isSet_def
  findClassByName_def Let_def

text \<open>
  The canvas changes colour channels by rounding: a mask recoloured with
  \<open>#3366cc\<close>, that is (51, 102, 204), comes back as (52, 102, 203) at alpha 128.
  Pure red and pure green come back as they are.
\<close>

lemma createColoredMask_rounds:
  "createColoredMask \<lparr>im_width = 2, im_height = 1, im_data = [1, 2, 3, 255, 9, 9, 9, 0]\<rparr>
     ''#3366cc'' =
   \<lparr>im_width = 2, im_height = 1, im_data = [52, 102, 203, 128, 0, 0, 0, 0]\<rparr>"
  using hexChannels_digits [OF hexDigit_values(2,2,3,3,4,4), of "CHR ''#''" "[]"]
  by (simp add: createColoredMask_def recolored_def recolorLoop.simps premultiply_def
      unpremultiply_def)

lemma createColoredMask_rawMask_red: "createColoredMask rawMask ''#FF0000'' = redMask"
  by (simp add: createColoredMask_def recolored_def hexChannels_red rawMask_def redMask_def
      recolorLoop.simps premultiply_def unpremultiply_def)

lemma createColoredMask_rawMask_green: "createColoredMask rawMask ''#00ff00'' = greenMask"
  by (simp add: createColoredMask_def recolored_def hexChannels_green rawMask_def greenMask_def
      recolorLoop.simps premultiply_def unpremultiply_def)

lemma createColoredMask_redMask_green: "createColoredMask redMask ''#00ff00'' = greenMask"
  by (simp add: createColoredMask_def recolored_def hexChannels_green redMask_def greenMask_def
      recolorLoop.simps premultiply_def unpremultiply_def)

lemma trim_cat: "trim ''cat'' = ''cat''"
  by code_simp


text \<open>The numbers of the concrete sessions are doubles, and so are their results.\<close>

lemma toDouble_values:
  "toDouble 1 = Num 1" "toDouble 2 = Num 2" "toDouble 100 = Num 100" "toDouble 200 = Num 200"
  "toDouble (799 / 2) = Num (799 / 2)"
  by code_simp+

lemma Math_round_of_int: "Math_round (of_int n) = n"
  unfolding Math_round_def by (rule floor_unique) simp_all

lemma Math_round_values: "Math_round 100 = 100" "Math_round 200 = 200" "Math_round (799 / 2) = 400"
  using Math_round_of_int [of 100] Math_round_of_int [of 200] by (simp_all add: Math_round_def)

lemmas js_defs = toImageCoord_def js_sub_def js_div_def js_mul_def js_round_def

lemma toImageCoord_values:
  "toImageCoord 100 0 800 400 = Px 200" "toImageCoord 100 0 600 300 = Px 200"
  "toImageCoord 400 (1 / 2) 400 400 = Px 400" "toImageCoord 100 0 300 300 = Px 100"
  by (simp_all add: js_defs toDouble_values Math_round_values)

lemma photo_size [simp]: "img_width photo = 800" "img_height photo = 600"
  by (simp_all add: photo_def)

lemma run_loadPhoto: "feasible loadPhoto init \<and> exec loadPhoto init = atPhoto"
  by (simp add: loadPhoto_def init_def atPhoto_def eval_defs)

lemma run_mousedown: "feasible [MouseDown click halfSize] atPhoto \<and> exec [MouseDown click halfSize] atPhoto = inFlight"
  by (simp add: atPhoto_def inFlight_def eval_defs click_def halfSize_def thePoint_def
      toImageCoord_values)

lemma run_mask: "feasible [PredictSettled 0 (Mask rawMask), MaskResolved 0] inFlight \<and>
   exec [PredictSettled 0 (Mask rawMask), MaskResolved 0] inFlight = withRedMask"
  by (simp add: inFlight_def withRedMask_def eval_defs createColoredMask_rawMask_red)


lemma run_clickAndMask: "feasible clickAndMask atPhoto \<and> exec clickAndMask atPhoto = withRedMask"
  using run_mousedown run_mask
    feasible_append [of "[MouseDown click halfSize]" "[PredictSettled 0 (Mask rawMask), MaskResolved 0]" atPhoto]
    exec_append [of "[MouseDown click halfSize]" "[PredictSettled 0 (Mask rawMask), MaskResolved 0]" atPhoto]
  by (simp add: clickAndMask_def)

lemma run_addCatAndSave: "feasible addCatAndSave withRedMask \<and> exec addCatAndSave withRedMask = oneSaved"
  by (simp add: addCatAndSave_def withRedMask_def oneSaved_def catMask_def trim_cat eval_defs)


lemma run_secondMask:
  "feasible (clickAndMask @ [SaveMaskClick]) oneSaved \<and>
   exec (clickAndMask @ [SaveMaskClick]) oneSaved = twoSaved"
  by (simp add: clickAndMask_def oneSaved_def twoSaved_def catMask_def eval_defs
      click_def halfSize_def createColoredMask_rawMask_green toImageCoord_values)

lemma run_twoMasks: "feasible twoMasks init \<and> exec twoMasks init = twoSaved"
  using run_loadPhoto run_clickAndMask run_addCatAndSave run_secondMask
  by (simp add: twoMasks_def feasible_append exec_append)


section \<open>Highlighting a saved mask\<close>

lemma reachable_atPhoto: "reachable atPhoto"
  using feasible_reachable [OF reach_initial [OF initial_init], of loadPhoto] run_loadPhoto by simp

lemma reachable_twoSaved: "reachable twoSaved"
  using feasible_reachable [OF reach_initial [OF initial_init], of twoMasks] run_twoMasks by simp

lemma highlight_after_click:
  assumes "activeIndex s = Some i"
  shows "highlightedMaskIndex (imagesState (masksListContainer_click k s) ! i) =
     (if highlightedMaskIndex (imagesState s ! i) = Some k then None else Some k)"
proof -
  have "i < length (imagesState s)" using assms by (simp add: activeIndex_Some)
  then show ?thesis using assms
    by (simp add: masksListContainer_click_def renderMasksListUI_def)
qed

lemma activeIndex_masksListContainer_click [simp]:
  "activeIndex (masksListContainer_click k s) = activeIndex s"
  by (simp add: masksListContainer_click_def renderMasksListUI_def activeIndex_def
      split: option.splits)

text \<open>
  C6 (as the handler behaves). Two clicks in a row on the list item of mask
  \<open>k\<close> of the active image restore the highlight when it was absent or was
  \<open>k\<close>; when another mask was highlighted, the two clicks leave no mask
  highlighted.
\<close>

theorem toggle_twice:
  assumes "activeIndex s = Some i"
  shows "highlightedMaskIndex
           (imagesState (masksListContainer_click k (masksListContainer_click k s)) ! i) =
         (if highlightedMaskIndex (imagesState s ! i) = None \<or>
             highlightedMaskIndex (imagesState s ! i) = Some k
          then highlightedMaskIndex (imagesState s ! i)
          else None)"
  using assms by (auto simp add: highlight_after_click)

theorem toggle_twice_witness:
  "highlightedMaskIndex
     (imagesState (masksListContainer_click 1 (masksListContainer_click 1 twoSaved)) ! 0) = None"
proof -
  have a: "activeIndex twoSaved = Some 0" by (simp add: activeIndex_def twoSaved_def)
  have h: "highlightedMaskIndex (imagesState twoSaved ! 0) = None" by (simp add: twoSaved_def)
  show ?thesis using toggle_twice [OF a, of 1] h by simp
qed

text \<open>
  C6 fails as stated: with two saved masks and mask 0 highlighted, clicking the
  item of mask 1 twice leaves nothing highlighted instead of mask 0.
\<close>

theorem toggle_twice_counterexample:
  "feasible (twoMasks @ [MaskItemClick 0, MaskItemClick 1, MaskItemClick 1]) init \<and>
   length (savedMasks (imagesState (exec (twoMasks @ [MaskItemClick 0]) init) ! 0)) = 2 \<and>
   highlightedMaskIndex (imagesState (exec (twoMasks @ [MaskItemClick 0]) init) ! 0) = Some 0 \<and>
   highlightedMaskIndex (imagesState
      (exec (twoMasks @ [MaskItemClick 0, MaskItemClick 1, MaskItemClick 1]) init) ! 0) = None"
  using run_twoMasks
  by (simp add: feasible_append exec_append twoSaved_def eval_defs)

text \<open>
  C7 (as the handler behaves). In every reachable state each highlighted index
  is below the number of saved masks of its entry. A click on a rendered list
  item always carries an index below the number of saved masks of the active
  image and sets the highlight to it, or clears the highlight when it was
  already that index; no range check is made and no error is raised. Every
  event that can occur leads to a state where the highlighted indices are valid.
\<close>

theorem highlight_valid:
  assumes "reachable s"
  shows "(\<forall>state \<in> set (imagesState s). \<forall>h. highlightedMaskIndex state = Some h \<longrightarrow>
            h < length (savedMasks state)) \<and>
         (\<forall>k i. enabled (MaskItemClick k) s \<and> activeIndex s = Some i \<longrightarrow>
            k < length (savedMasks (imagesState s ! i)) \<and>
            highlightedMaskIndex (imagesState (handle (MaskItemClick k) s) ! i) =
              (if highlightedMaskIndex (imagesState s ! i) = Some k then None else Some k)) \<and>
         (\<forall>e. enabled e s \<longrightarrow>
            (\<forall>state \<in> set (imagesState (handle e s)). \<forall>h. highlightedMaskIndex state = Some h \<longrightarrow>
               h < length (savedMasks state)))"
proof (intro conjI allI impI)
  show "\<forall>state \<in> set (imagesState s). \<forall>h. highlightedMaskIndex state = Some h \<longrightarrow>
            h < length (savedMasks state)"
    using reachable_inv [OF assms] by (simp add: inv_highlight_alt)
next
  fix k i
  assume a: "enabled (MaskItemClick k) s \<and> activeIndex s = Some i"
  then have "activeImageId s = Some i" by (simp add: activeIndex_Some)
  then show "k < length (savedMasks (imagesState s ! i))"
    using reachable_inv [OF assms] a by (simp add: inv_dom_alt)
  show "highlightedMaskIndex (imagesState (handle (MaskItemClick k) s) ! i) =
          (if highlightedMaskIndex (imagesState s ! i) = Some k then None else Some k)"
    using a by (simp add: highlight_after_click)
next
  fix e
  assume "enabled e s"
  with assms have "reachable (handle e s)" by (rule reach_step)
  then show "\<forall>state \<in> set (imagesState (handle e s)). \<forall>h. highlightedMaskIndex state = Some h \<longrightarrow>
               h < length (savedMasks state)"
    using reachable_inv by (simp add: inv_highlight_alt)
qed

theorem highlight_valid_witness:
  "1 < length (savedMasks (imagesState twoSaved ! 0)) \<and>
   highlightedMaskIndex (imagesState (handle (MaskItemClick 1) twoSaved) ! 0) = Some 1"
proof -
  have e: "enabled (MaskItemClick 1) twoSaved" by (simp add: twoSaved_def)
  have a: "activeIndex twoSaved = Some 0" by (simp add: activeIndex_def twoSaved_def)
  have h: "highlightedMaskIndex (imagesState twoSaved ! 0) = None" by (simp add: twoSaved_def)
  show ?thesis using highlight_valid [OF reachable_twoSaved] e a h by simp
qed

text \<open>
  C7 fails as stated: called with an index beyond the saved masks, the handler
  does not fail; it stores the index.
\<close>

theorem highlight_range_counterexample:
  "length (savedMasks (imagesState atPhoto ! 0)) = 0 \<and>
   highlightedMaskIndex (imagesState (masksListContainer_click 5 atPhoto) ! 0) = Some 5"
  by (simp add: atPhoto_def eval_defs)


section \<open>The coordinate mapping of \<open>mousedown\<close>\<close>










lemma Math_round_nearest:
  "of_int (Math_round v) - 1 / 2 \<le> v \<and> v < of_int (Math_round v) + 1 / 2"
  unfolding Math_round_def by linarith







text \<open>
  Double rounding is visible in the result: for a 1000 pixel wide image shown
  304 pixels wide, a click 19 pixels from the left edge is recorded at 62,
  although the exact product \<open>19 * 1000 / 304\<close> is 62.5.
\<close>

lemma toImageCoord_rounds: "toImageCoord 19 0 1000 304 = Px 62"
  by code_simp

text \<open>
  Ties go to the even neighbour: between \<open>2^53\<close> and \<open>2^54\<close> the doubles are the
  even integers.
\<close>

lemma toDouble_ties:
  "toDouble (2 ^ 53 + 1) = Num (2 ^ 53)" "toDouble (2 ^ 53 + 3) = Num (2 ^ 53 + 4)"
  by code_simp+


section \<open>Saving the pending mask\<close>

lemma reachable_withRedMask: "reachable withRedMask"
  using feasible_reachable [OF reachable_atPhoto, of clickAndMask] run_clickAndMask by simp

lemma saveMaskButton_click_success:
  assumes "activeIndex s = Some i" and "currentMask (imagesState s ! i) = Some m"
    and "activeClass s = Some c" and "c \<noteq> []" and "findClassByName s c = Some classInfo"
  shows "saveMaskButton_click s =
           Inr (updateAllUI (updState i
                  (\<lambda>state. state\<lparr>savedMasks := savedMasks state @
                              [\<lparr>maskImageObject = m, maskImageSrc = m,
                                className = name classInfo,
                                classColor = color classInfo\<rparr>],
                            currentMask := None, points := []\<rparr>) s))"
  using assms by (simp add: saveMaskButton_click_def isSet_def)

lemma findClassByName_name:
  "findClassByName s c = Some classInfo \<Longrightarrow> name classInfo = c \<and> classInfo \<in> set (classes s)"
  by (auto simp: findClassByName_def find_Some_iff)

lemma findClassByName_registered:
  "c \<in> name ` set (classes s) \<Longrightarrow> \<exists>classInfo. findClassByName s c = Some classInfo"
  by (cases "findClassByName s c") (auto simp: findClassByName_def find_None_iff)

text \<open>In a reachable state the active class is a registered, non-empty name.\<close>

lemma reachable_activeClass:
  assumes "reachable s" and "activeClass s = Some c"
  shows "c \<noteq> [] \<and> (\<exists>classInfo. findClassByName s c = Some classInfo)"
proof -
  have ic: "inv_classes s" using reachable_inv [OF assms(1)] by simp
  then have reg: "c \<in> name ` set (classes s)" using assms(2) by (simp add: inv_classes_alt)
  then obtain ci where "ci \<in> set (classes s)" "name ci = c" by auto
  then have "c \<noteq> []" using ic by (auto simp: inv_classes_alt)
  then show ?thesis using findClassByName_registered [OF reg] by simp
qed

text \<open>
  C2 (as the handler behaves). In a reachable state with an active image that
  has a pending mask, and with an active class, which is then registered, the
  save handler succeeds in one step: it appends exactly one saved mask that
  holds the pending mask as it is (it is not recoloured), the class name and
  the class's current colour; afterwards the entry has no points and no
  pending mask, its highlight and all other entries are as before.
\<close>

theorem saveMask_appends:
  assumes "reachable s" and "activeIndex s = Some i"
    and "currentMask (imagesState s ! i) = Some m" and "activeClass s = Some c"
  shows "\<exists>s' classInfo. findClassByName s c = Some classInfo \<and>
           saveMaskButton_click s = Inr s' \<and>
           length (imagesState s') = length (imagesState s) \<and>
           savedMasks (imagesState s' ! i) = savedMasks (imagesState s ! i) @
             [\<lparr>maskImageObject = m, maskImageSrc = m, className = c,
               classColor = color classInfo\<rparr>] \<and>
           length (savedMasks (imagesState s' ! i)) = length (savedMasks (imagesState s ! i)) + 1 \<and>
           points (imagesState s' ! i) = [] \<and>
           currentMask (imagesState s' ! i) = None \<and>
           highlightedMaskIndex (imagesState s' ! i) = highlightedMaskIndex (imagesState s ! i) \<and>
           (\<forall>j. j \<noteq> i \<longrightarrow> imagesState s' ! j = imagesState s ! j) \<and>
           classes s' = classes s \<and> activeClass s' = activeClass s"
proof -
  have len: "i < length (imagesState s)" using assms(2) by (simp add: activeIndex_Some)
  obtain classInfo where ne: "c \<noteq> []" and ci: "findClassByName s c = Some classInfo"
    using reachable_activeClass [OF assms(1,4)] by auto
  show ?thesis
    using len ci findClassByName_name [OF ci]
    by (simp add: saveMaskButton_click_success [OF assms(2,3,4) ne ci])
qed

lemma withCat_facts:
  "activeIndex (handle (AddClassClick ''cat'' ''#00ff00'') withRedMask) = Some 0"
  "currentMask (imagesState (handle (AddClassClick ''cat'' ''#00ff00'') withRedMask) ! 0) = Some redMask"
  "activeClass (handle (AddClassClick ''cat'' ''#00ff00'') withRedMask) = Some ''cat''"
  "savedMasks (imagesState (handle (AddClassClick ''cat'' ''#00ff00'') withRedMask) ! 0) = []"
  "findClassByName (handle (AddClassClick ''cat'' ''#00ff00'') withRedMask) ''cat'' = Some \<lparr>name = ''cat'', color = ''#00ff00''\<rparr>"
  by (simp_all add: withRedMask_def trim_cat eval_defs)

theorem saveMask_appends_witness:
  "\<exists>s'. saveMaskButton_click (handle (AddClassClick ''cat'' ''#00ff00'') withRedMask) = Inr s' \<and>
     savedMasks (imagesState s' ! 0) =
       [\<lparr>maskImageObject = redMask, maskImageSrc = redMask, className = ''cat'',
         classColor = ''#00ff00''\<rparr>] \<and>
     points (imagesState s' ! 0) = [] \<and> currentMask (imagesState s' ! 0) = None"
proof -
  have r: "reachable (handle (AddClassClick ''cat'' ''#00ff00'') withRedMask)"
    by (rule reach_step [OF reachable_withRedMask]) simp
  show ?thesis
    using saveMask_appends [OF r withCat_facts(1,2,3)] withCat_facts(4,5) by auto
qed

text \<open>
  C2 fails as stated: a mask predicted while no class was active is red;
  saved under class \<open>cat\<close> of colour \<open>#00ff00\<close> it is stored still red, although
  recolouring it with the class colour would give the green mask.
\<close>

theorem saveMask_recolor_counterexample:
  "feasible (loadPhoto @ clickAndMask @ addCatAndSave) init \<and>
   currentMask (imagesState (exec (loadPhoto @ clickAndMask) init) ! 0) = Some redMask \<and>
   savedMasks (imagesState (exec (loadPhoto @ clickAndMask @ addCatAndSave) init) ! 0) =
     [\<lparr>maskImageObject = redMask, maskImageSrc = redMask, className = ''cat'',
       classColor = ''#00ff00''\<rparr>] \<and>
   createColoredMask redMask ''#00ff00'' = greenMask \<and>
   redMask \<noteq> greenMask"
  using run_loadPhoto run_clickAndMask run_addCatAndSave
  by (simp add: feasible_append exec_append withRedMask_def oneSaved_def catMask_def
      createColoredMask_redMask_green)
     (simp add: redMask_def greenMask_def)

text \<open>
  C3 (as the handler behaves). Without an active image, without a pending
  mask, or without an active class the save handler returns normally, reports
  nothing, and leaves the whole state unchanged. In a reachable state it never
  raises an exception.
\<close>

theorem saveMask_no_error:
  "(activeIndex s = None \<or>
    (\<exists>i. activeIndex s = Some i \<and> currentMask (imagesState s ! i) = None) \<or>
    \<not> isSet (activeClass s) \<longrightarrow> saveMaskButton_click s = Inr s) \<and>
   (reachable s \<longrightarrow> (\<exists>s'. saveMaskButton_click s = Inr s'))"
proof (intro conjI impI)
  assume "activeIndex s = None \<or>
    (\<exists>i. activeIndex s = Some i \<and> currentMask (imagesState s ! i) = None) \<or>
    \<not> isSet (activeClass s)"
  then show "saveMaskButton_click s = Inr s"
    by (auto simp: saveMaskButton_click_def split: option.splits)
next
  assume r: "reachable s"
  show "\<exists>s'. saveMaskButton_click s = Inr s'"
  proof (cases "activeClass s")
    case None
    then show ?thesis
      by (auto simp: saveMaskButton_click_def isSet_def split: option.splits)
  next
    case (Some c)
    then show ?thesis
      using reachable_activeClass [OF r Some]
      by (auto simp: saveMaskButton_click_def split: option.splits)
  qed
qed

theorem saveMask_no_error_witness:
  "saveMaskButton_click atPhoto = Inr atPhoto \<and>
   (\<exists>s'. saveMaskButton_click withRedMask = Inr s')"
proof -
  have "\<exists>i. activeIndex atPhoto = Some i \<and> currentMask (imagesState atPhoto ! i) = None"
    by (simp add: atPhoto_def activeIndex_def)
  then show ?thesis
    using saveMask_no_error [of atPhoto] saveMask_no_error [of withRedMask]
      reachable_withRedMask by blast
qed

text \<open>
  C3 fails as stated: with no pending mask, and with a pending mask but no
  class, the handler returns normally (\<open>Inr\<close>) instead of reporting an error.
\<close>

theorem saveMask_error_counterexample:
  "feasible (loadPhoto @ clickAndMask) init \<and>
   currentMask (imagesState (exec loadPhoto init) ! 0) = None \<and>
   saveMaskButton_click (exec loadPhoto init) = Inr (exec loadPhoto init) \<and>
   currentMask (imagesState (exec (loadPhoto @ clickAndMask) init) ! 0) = Some redMask \<and>
   activeClass (exec (loadPhoto @ clickAndMask) init) = None \<and>
   saveMaskButton_click (exec (loadPhoto @ clickAndMask) init) = Inr (exec (loadPhoto @ clickAndMask) init)"
  using run_loadPhoto run_clickAndMask
  by (simp add: feasible_append exec_append)
     (simp add: atPhoto_def withRedMask_def saveMaskButton_click_def activeIndex_def isSet_def)


section \<open>Colouring the answer of the service\<close>

lemma predict_settled_Mask:
  assumes "k < length (pendingFetches s)" and "maskColor s = Some c"
  shows "predict_settled k (Mask m) s =
           s\<lparr>pendingFetches := removeAt k (pendingFetches s),
             pendingMasks := pendingMasks s @
               [\<lparr>mt_state = ft_state (pendingFetches s ! k), mt_mask = m, mt_color = c\<rparr>],
             isPredicting := False\<rparr>"
  using assms by (simp add: predict_settled_def Let_def)

lemma mask_resolved_currentMask:
  assumes "j < length (pendingMasks t)" and "mt_state (pendingMasks t ! j) = i"
    and "i < length (imagesState t)"
  shows "imagesState (mask_resolved j t) =
           (imagesState t)[i := (imagesState t ! i)
              \<lparr>currentMask := Some (createColoredMask (mt_mask (pendingMasks t ! j))
                                     (mt_color (pendingMasks t ! j)))\<rparr>]"
  using assms by (simp add: mask_resolved_def Let_def)

lemma reachable_maskColor:
  assumes "reachable s"
  shows "\<exists>c. maskColor s = Some c"
proof (cases "activeClass s")
  case None
  then show ?thesis by (simp add: maskColor_def isSet_def)
next
  case (Some n)
  then show ?thesis using reachable_activeClass [OF assms Some]
    by (auto simp: maskColor_def isSet_def)
qed

lemma maskColor_cases:
  "maskColor s = Some c \<Longrightarrow>
     (\<not> isSet (activeClass s) \<longrightarrow> c = ''#FF0000'') \<and>
     (\<forall>n classInfo. activeClass s = Some n \<and> n \<noteq> [] \<and> findClassByName s n = Some classInfo
        \<longrightarrow> c = color classInfo)"
  by (auto simp: maskColor_def isSet_def split: if_splits)

text \<open>
  C10. In a reachable state, when the answer to an outstanding request arrives
  with a mask, a colour is fixed at that moment: the colour of the class that
  is active then, or \<open>#FF0000\<close> when none is. Once the coloured mask is ready,
  the pending mask of the entry that made the request is the answer recoloured
  with that colour. Saving later stores the pending mask as it is, whatever
  the class colour at that time: the stored pixels are those coloured at
  prediction time.
\<close>

theorem mask_colored_at_prediction:
  assumes "reachable s" and "k < length (pendingFetches s)"
  shows "\<exists>c. maskColor s = Some c \<and>
           (\<not> isSet (activeClass s) \<longrightarrow> c = ''#FF0000'') \<and>
           (\<forall>n classInfo. activeClass s = Some n \<and> findClassByName s n = Some classInfo
              \<longrightarrow> c = color classInfo) \<and>
           currentMask
             (imagesState (mask_resolved (length (pendingMasks s)) (predict_settled k (Mask m) s))
                ! ft_state (pendingFetches s ! k)) = Some (createColoredMask m c) \<and>
           (\<forall>t j mk n classInfo.
              activeIndex t = Some j \<and> currentMask (imagesState t ! j) = Some mk \<and>
              activeClass t = Some n \<and> n \<noteq> [] \<and> findClassByName t n = Some classInfo \<longrightarrow>
              (\<exists>t'. saveMaskButton_click t = Inr t' \<and>
                 maskImageObject (last (savedMasks (imagesState t' ! j))) = mk \<and>
                 maskImageSrc (last (savedMasks (imagesState t' ! j))) = mk))"
proof -
  obtain c where c: "maskColor s = Some c" using reachable_maskColor [OF assms(1)] by auto
  let ?i = "ft_state (pendingFetches s ! k)"
  let ?s1 = "predict_settled k (Mask m) s"
  have i: "?i < length (imagesState s)"
    using reachable_inv [OF assms(1)] assms(2) by (simp add: inv_tasks_def)
  have s1: "?s1 = s\<lparr>pendingFetches := removeAt k (pendingFetches s),
             pendingMasks := pendingMasks s @ [\<lparr>mt_state = ?i, mt_mask = m, mt_color = c\<rparr>],
             isPredicting := False\<rparr>"
    by (rule predict_settled_Mask [OF assms(2) c])
  have "imagesState (mask_resolved (length (pendingMasks s)) ?s1) =
           (imagesState ?s1)[?i := (imagesState ?s1 ! ?i)
              \<lparr>currentMask := Some (createColoredMask m c)\<rparr>]"
    using mask_resolved_currentMask [of "length (pendingMasks s)" ?s1 ?i] i
    by (simp add: s1)
  then have cur: "currentMask (imagesState (mask_resolved (length (pendingMasks s)) ?s1) ! ?i)
      = Some (createColoredMask m c)"
    using i by (simp add: s1)
  have active: "\<forall>n classInfo. activeClass s = Some n \<and> findClassByName s n = Some classInfo
              \<longrightarrow> c = color classInfo"
    using maskColor_cases [OF c] reachable_activeClass [OF assms(1)] by blast
  have save: "\<forall>t j mk n classInfo.
              activeIndex t = Some j \<and> currentMask (imagesState t ! j) = Some mk \<and>
              activeClass t = Some n \<and> n \<noteq> [] \<and> findClassByName t n = Some classInfo \<longrightarrow>
              (\<exists>t'. saveMaskButton_click t = Inr t' \<and>
                 maskImageObject (last (savedMasks (imagesState t' ! j))) = mk \<and>
                 maskImageSrc (last (savedMasks (imagesState t' ! j))) = mk)"
  proof (intro allI impI)
    fix t j mk n classInfo
    assume a: "activeIndex t = Some j \<and> currentMask (imagesState t ! j) = Some mk \<and>
              activeClass t = Some n \<and> n \<noteq> [] \<and> findClassByName t n = Some classInfo"
    then have "j < length (imagesState t)" by (simp add: activeIndex_Some)
    then show "\<exists>t'. saveMaskButton_click t = Inr t' \<and>
                 maskImageObject (last (savedMasks (imagesState t' ! j))) = mk \<and>
                 maskImageSrc (last (savedMasks (imagesState t' ! j))) = mk"
      using a by (simp add: saveMaskButton_click_success [of t j mk n classInfo])
  qed
  show ?thesis
    using c maskColor_cases [OF c] cur active save by blast
qed


lemma reachable_inFlight: "reachable inFlight"
  using feasible_reachable [OF reachable_atPhoto, of "[MouseDown click halfSize]"] run_mousedown
  by simp

lemma inFlight_facts:
  "length (pendingFetches inFlight) = 1"
  "ft_state (pendingFetches inFlight ! 0) = 0"
  "pendingMasks inFlight = []"
  "activeClass inFlight = None"
  "activeIndex inFlight = Some 0"
  "points (imagesState inFlight ! 0) = [thePoint]"
  "currentMask (imagesState inFlight ! 0) = None"
  by (simp_all add: inFlight_def activeIndex_def)

theorem mask_colored_at_prediction_witness:
  "currentMask (imagesState (mask_resolved 0 (predict_settled 0 (Mask rawMask) inFlight)) ! 0)
     = Some redMask \<and>
   (\<exists>t'. saveMaskButton_click (handle (AddClassClick ''cat'' ''#00ff00'') withRedMask) = Inr t' \<and>
      maskImageObject (last (savedMasks (imagesState t' ! 0))) = redMask)"
proof -
  have k: "0 < length (pendingFetches inFlight)" by (simp add: inFlight_facts)
  obtain c where c: "\<not> isSet (activeClass inFlight) \<longrightarrow> c = ''#FF0000''"
    and cur: "currentMask
             (imagesState (mask_resolved (length (pendingMasks inFlight))
                (predict_settled 0 (Mask rawMask) inFlight))
                ! ft_state (pendingFetches inFlight ! 0)) = Some (createColoredMask rawMask c)"
    and save: "\<forall>t j mk n classInfo.
              activeIndex t = Some j \<and> currentMask (imagesState t ! j) = Some mk \<and>
              activeClass t = Some n \<and> n \<noteq> [] \<and> findClassByName t n = Some classInfo \<longrightarrow>
              (\<exists>t'. saveMaskButton_click t = Inr t' \<and>
                 maskImageObject (last (savedMasks (imagesState t' ! j))) = mk \<and>
                 maskImageSrc (last (savedMasks (imagesState t' ! j))) = mk)"
    using mask_colored_at_prediction [OF reachable_inFlight k, of rawMask] by blast
  have "c = ''#FF0000''" using c by (simp add: inFlight_facts isSet_def)
  then have first: "currentMask
      (imagesState (mask_resolved 0 (predict_settled 0 (Mask rawMask) inFlight)) ! 0) = Some redMask"
    using cur by (simp add: inFlight_facts createColoredMask_rawMask_red)
  have "\<exists>t'. saveMaskButton_click (handle (AddClassClick ''cat'' ''#00ff00'') withRedMask) = Inr t' \<and>
      maskImageObject (last (savedMasks (imagesState t' ! 0))) = redMask \<and>
      maskImageSrc (last (savedMasks (imagesState t' ! 0))) = redMask"
    using save withCat_facts(1,2,3,5) by blast
  then show ?thesis using first by blast
qed

section \<open>Requests in flight\<close>

text \<open>In reachable states an outstanding request is the only one, and the flag is up.\<close>

lemma reachable_outstanding:
  assumes "reachable s" and "k < length (pendingFetches s)"
  shows "isPredicting s \<and> k = 0 \<and> length (pendingFetches s) = 1"
  using reachable_inv [OF assms(1)] assms(2) by (auto simp: inv_predicting_def)

lemma canvas_mousedown_blocked: "isPredicting s \<Longrightarrow> canvas_mousedown e rect s = s"
  by (simp add: canvas_mousedown_def split: option.splits)

text \<open>
  C1 (as the handlers behave). While a request is outstanding in a reachable
  state, a \<open>mousedown\<close> changes nothing, so no point is added before the
  answer arrives. There is no staleness check: when a coloured mask is ready,
  it becomes the pending mask of the entry that made the request, whatever the
  points of that entry are by then, and the points are left as they are.
\<close>

theorem response_applied_unchecked:
  "(reachable s \<and> k < length (pendingFetches s) \<longrightarrow>
      canvas_mousedown e rect s = s) \<and>
   (j < length (pendingMasks t) \<and> mt_state (pendingMasks t ! j) = i \<and>
    i < length (imagesState t) \<longrightarrow>
      currentMask (imagesState (mask_resolved j t) ! i) =
        Some (createColoredMask (mt_mask (pendingMasks t ! j)) (mt_color (pendingMasks t ! j))) \<and>
      points (imagesState (mask_resolved j t) ! i) = points (imagesState t ! i))"
proof (intro conjI impI)
  assume "reachable s \<and> k < length (pendingFetches s)"
  then have "isPredicting s" using reachable_outstanding by blast
  then show "canvas_mousedown e rect s = s" by (rule canvas_mousedown_blocked)
next
  assume a: "j < length (pendingMasks t) \<and> mt_state (pendingMasks t ! j) = i \<and>
    i < length (imagesState t)"
  then have im: "imagesState (mask_resolved j t) =
           (imagesState t)[i := (imagesState t ! i)
              \<lparr>currentMask := Some (createColoredMask (mt_mask (pendingMasks t ! j))
                                     (mt_color (pendingMasks t ! j)))\<rparr>]"
    using mask_resolved_currentMask [of j t i] by simp
  show "currentMask (imagesState (mask_resolved j t) ! i) =
        Some (createColoredMask (mt_mask (pendingMasks t ! j)) (mt_color (pendingMasks t ! j)))"
    using a by (simp add: im)
  show "points (imagesState (mask_resolved j t) ! i) = points (imagesState t ! i)"
    using a by (simp add: im)
qed


lemmas session_defs = click_def halfSize_def thePoint_def createColoredMask_rawMask_red
  createColoredMask_rawMask_green toImageCoord_values

lemma run_secondPoint:
  "feasible secondPoint atPhoto \<and>
   points (imagesState (exec secondPoint atPhoto) ! 0) = [thePoint, thePoint] \<and>
   currentMask (imagesState (exec secondPoint atPhoto) ! 0) = None \<and>
   pendingMasks (exec secondPoint atPhoto) =
     [\<lparr>mt_state = 0, mt_mask = rawMask, mt_color = ''#FF0000''\<rparr>] \<and>
   map ft_points (pendingFetches (exec secondPoint atPhoto)) = [[thePoint, thePoint]] \<and>
   length (imagesState (exec secondPoint atPhoto)) = 1"
  by (simp add: secondPoint_def atPhoto_def eval_defs session_defs)

theorem response_applied_unchecked_witness:
  "canvas_mousedown click halfSize inFlight = inFlight \<and>
   currentMask (imagesState (mask_resolved 0 (exec secondPoint atPhoto)) ! 0) = Some redMask \<and>
   points (imagesState (mask_resolved 0 (exec secondPoint atPhoto)) ! 0) = [thePoint, thePoint]"
proof -
  have k: "reachable inFlight \<and> 0 < length (pendingFetches inFlight)"
    using reachable_inFlight by (simp add: inFlight_facts)
  have j: "0 < length (pendingMasks (exec secondPoint atPhoto)) \<and>
      mt_state (pendingMasks (exec secondPoint atPhoto) ! 0) = 0 \<and>
      0 < length (imagesState (exec secondPoint atPhoto))"
    using run_secondPoint by simp
  show ?thesis
    using response_applied_unchecked [of inFlight 0 click halfSize 0 "exec secondPoint atPhoto" 0]
      k j run_secondPoint
    by (simp add: createColoredMask_rawMask_red)
qed

text \<open>
  C1 fails as stated. First session: the request for one point has been
  answered and its mask is being coloured when a second point is placed; the
  mask computed for the first point alone then becomes the pending mask of an
  entry with two points. Second session: the points are cleared while a
  request is outstanding; its answer is applied to the entry with no points.
\<close>

theorem stale_response_counterexample:
  "feasible (loadPhoto @ staleAfterPoint) init \<and>
   map ft_points (pendingFetches (exec (loadPhoto @ [MouseDown click halfSize]) init))
     = [[thePoint]] \<and>
   points (imagesState (exec (loadPhoto @ secondPoint) init) ! 0) = [thePoint, thePoint] \<and>
   currentMask (imagesState (exec (loadPhoto @ secondPoint) init) ! 0) = None \<and>
   points (imagesState (exec (loadPhoto @ staleAfterPoint) init) ! 0) = [thePoint, thePoint] \<and>
   currentMask (imagesState (exec (loadPhoto @ staleAfterPoint) init) ! 0) = Some redMask \<and>
   feasible (loadPhoto @ clickAndMask @ staleAfterClear) init \<and>
   points (imagesState (exec (loadPhoto @ clickAndMask @ staleAfterClear) init) ! 0) = [] \<and>
   currentMask (imagesState (exec (loadPhoto @ clickAndMask @ staleAfterClear) init) ! 0)
     = Some redMask"
proof -
  have a: "feasible staleAfterPoint atPhoto \<and>
      points (imagesState (exec staleAfterPoint atPhoto) ! 0) = [thePoint, thePoint] \<and>
      currentMask (imagesState (exec staleAfterPoint atPhoto) ! 0) = Some redMask"
    by (simp add: staleAfterPoint_def secondPoint_def atPhoto_def eval_defs session_defs)
  have b: "feasible staleAfterClear withRedMask \<and>
      points (imagesState (exec staleAfterClear withRedMask) ! 0) = [] \<and>
      currentMask (imagesState (exec staleAfterClear withRedMask) ! 0) = Some redMask"
    by (simp add: staleAfterClear_def withRedMask_def eval_defs session_defs)
  have c: "map ft_points (pendingFetches inFlight) = [[thePoint]]"
    by (simp add: inFlight_def)
  show ?thesis
    using a b c run_loadPhoto run_mousedown run_clickAndMask run_secondPoint
    by (simp add: feasible_append exec_append)
qed

text \<open>
  C8 (as the handlers behave). While a request is outstanding in a reachable
  state, a \<open>mousedown\<close> is ignored: the state, and so the point list, stays as
  it is. Switching to another thumbnail and clearing are not held back by the
  request: a click on a thumbnail makes it the active image, and a click on
  the clear button, when that button is enabled, leaves the active entry with
  no points and no pending mask.
\<close>

theorem interactions_while_predicting:
  assumes "reachable s" and "pendingFetches s \<noteq> []"
  shows "handle (MouseDown e rect) s = s \<and>
         (\<forall>j. enabled (ThumbnailClick j) s \<longrightarrow>
            j < length (imagesState s) \<and>
            activeImageId (handle (ThumbnailClick j) s) = Some j \<and>
            imagesState (handle (ThumbnailClick j) s) = imagesState s) \<and>
         (\<forall>i. enabled ClearPointsClick s \<and> activeIndex s = Some i \<longrightarrow>
            points (imagesState (handle ClearPointsClick s) ! i) = [] \<and>
            currentMask (imagesState (handle ClearPointsClick s) ! i) = None)"
proof (intro conjI allI impI)
  have "isPredicting s"
    using reachable_inv [OF assms(1)] assms(2) by (simp add: inv_predicting_def)
  then show "handle (MouseDown e rect) s = s" by (simp add: canvas_mousedown_blocked)
next
  fix j
  assume "enabled (ThumbnailClick j) s"
  then show "j < length (imagesState s)"
    using reachable_inv [OF assms(1)] by (simp add: inv_active_alt)
  show "activeImageId (handle (ThumbnailClick j) s) = Some j"
    by (simp add: setActiveImage_def)
  show "imagesState (handle (ThumbnailClick j) s) = imagesState s"
    by (simp add: setActiveImage_def)
next
  fix i
  assume "enabled ClearPointsClick s \<and> activeIndex s = Some i"
  then have a: "activeIndex s = Some i" by simp
  then have len: "i < length (imagesState s)" by (simp add: activeIndex_Some)
  show "points (imagesState (handle ClearPointsClick s) ! i) = []"
    using a len by (auto simp: clearPointsButton_click_def Let_def)
  show "currentMask (imagesState (handle ClearPointsClick s) ! i) = None"
    using a len by (auto simp: clearPointsButton_click_def Let_def)
qed

theorem interactions_while_predicting_witness:
  "handle (MouseDown click halfSize) (handle (MouseDown click halfSize) withRedMask) =
     handle (MouseDown click halfSize) withRedMask \<and>
   activeImageId (handle (ThumbnailClick 0) (handle (MouseDown click halfSize) withRedMask)) =
     Some 0 \<and>
   points (imagesState (handle ClearPointsClick (handle (MouseDown click halfSize) withRedMask))
     ! 0) = [] \<and>
   currentMask (imagesState (handle ClearPointsClick (handle (MouseDown click halfSize) withRedMask))
     ! 0) = None"
proof -
  let ?s = "handle (MouseDown click halfSize) withRedMask"
  have r: "reachable ?s" by (rule reach_step [OF reachable_withRedMask]) simp
  have p: "pendingFetches ?s \<noteq> []"
    by (simp add: withRedMask_def eval_defs session_defs)
  have e: "enabled (ThumbnailClick 0) ?s" "enabled ClearPointsClick ?s"
    by (simp_all add: withRedMask_def eval_defs session_defs)
  have a: "activeIndex ?s = Some 0"
    by (simp add: withRedMask_def eval_defs session_defs)
  show ?thesis
    using interactions_while_predicting [OF r p, of click halfSize] e a by blast
qed

text \<open>
  C8 fails as stated: a second click while the first request is outstanding
  adds no point.
\<close>

theorem blocked_click_counterexample:
  "feasible (loadPhoto @ blockedClick) init \<and>
   pendingFetches (exec (loadPhoto @ [MouseDown click halfSize]) init) \<noteq> [] \<and>
   points (imagesState (exec (loadPhoto @ [MouseDown click halfSize]) init) ! 0) = [thePoint] \<and>
   points (imagesState (exec (loadPhoto @ blockedClick) init) ! 0) = [thePoint]"
proof -
  have "feasible blockedClick atPhoto \<and> exec blockedClick atPhoto = inFlight"
    using run_mousedown canvas_mousedown_blocked [of inFlight click halfSize]
    by (simp add: blockedClick_def inFlight_def)
  then show ?thesis
    using run_loadPhoto run_mousedown
    by (simp add: feasible_append exec_append inFlight_facts) (simp add: inFlight_def)
qed

text \<open>
  C9 (as the handler behaves). When the outstanding request of a reachable
  state fails, the only effect is that the request is gone and the flag is
  down: nothing is recorded about the failure, and every entry keeps its
  points and its pending mask, present or absent, as they were.
\<close>

theorem predict_failed_keeps_state:
  assumes "reachable s" and "k < length (pendingFetches s)"
  shows "predict_settled k Failed s = s\<lparr>pendingFetches := [], isPredicting := False\<rparr>"
proof -
  have "k = 0" "length (pendingFetches s) = 1"
    using reachable_outstanding [OF assms] by simp_all
  then have "removeAt k (pendingFetches s) = []"
    by (cases "pendingFetches s") (simp_all add: removeAt_def)
  then show ?thesis using assms(2) by (simp add: predict_settled_def Let_def)
qed

theorem predict_failed_keeps_state_witness:
  "predict_settled 0 Failed inFlight = inFlight\<lparr>pendingFetches := [], isPredicting := False\<rparr>"
proof -
  have k: "0 < length (pendingFetches inFlight)" by (simp add: inFlight_facts)
  show ?thesis using predict_failed_keeps_state [OF reachable_inFlight k] .
qed

text \<open>
  C9 fails as stated: when a point is added to an entry that already has a
  pending mask and the new request fails, the pending mask of the earlier
  answer is still there.
\<close>

theorem predict_failed_counterexample:
  "feasible (loadPhoto @ clickAndMask @ failAfterMask) init \<and>
   points (imagesState (exec (loadPhoto @ clickAndMask @ failAfterMask) init) ! 0)
     = [thePoint, thePoint] \<and>
   currentMask (imagesState (exec (loadPhoto @ clickAndMask @ failAfterMask) init) ! 0)
     = Some redMask"
proof -
  have "feasible failAfterMask withRedMask \<and>
      points (imagesState (exec failAfterMask withRedMask) ! 0) = [thePoint, thePoint] \<and>
      currentMask (imagesState (exec failAfterMask withRedMask) ! 0) = Some redMask"
    by (simp add: failAfterMask_def withRedMask_def eval_defs session_defs)
  then show ?thesis
    using run_loadPhoto run_clickAndMask by (simp add: feasible_append exec_append)
qed

end
